theory Spec2Isabelle
  imports Main "HOL-Library.Word" "HOL-Library.Sublist"
begin

section \<open>The manifest parser of ninja\<close>

text \<open>
  The parser methods of \<^verbatim>\<open>manifest_parser.cc\<close> are embedded as functions on an
  explicit parser state. A C++ method \<^verbatim>\<open>bool ParseX(string* err)\<close> becomes a
  function returning the \<^verbatim>\<open>bool\<close> together with the state it leaves behind; the
  out-parameter \<^verbatim>\<open>err\<close> is a field of that state. The collaborators of the
  parser (tokenizer, scopes, graph store, file reader) live in other files of the
  repository; they are modelled from the specification, or taken as parameters.
  A member \<^verbatim>\<open>x_\<close> of a C++ class is the record field \<open>x'\<close>.
\<close>

subsection \<open>Tokens and template values\<close>

datatype Token =
  ERROR | BUILD | COLON | DEFAULT | EQUALS | IDENT | INCLUDE | INDENT | NEWLINE
  | PIPE | PIPE2 | POOL | RULE | SUBNINJA | TEOF

text \<open>
  Modelled from the spec: the template value (\<^verbatim>\<open>EvalString\<close> of \<^verbatim>\<open>eval_env.h\<close>). An ordered
  sequence of fragments, each literal text or a variable reference.
\<close>

datatype fragment = RAW string | SPECIAL string

type_synonym EvalString = "fragment list"

subsection \<open>The tokenizer\<close>

text \<open>
  Modelled from the spec: the tokenizer (\<^verbatim>\<open>Lexer\<close>, lexer.h). The input buffer is a
  list of lexemes. \<open>Kw t\<close> is text that reads as the structural token \<open>t\<close>; \<open>Word s\<close> is
  text in identifier characters (an \<open>IDENT\<close> token, an identifier, or a one-fragment
  path); \<open>PathText e\<close> is any other path expression; \<open>ValueText e\<close> is the rest of a
  line after \<open>=\<close>, read as a template value, its line end included; \<open>Malformed m\<close> is
  text no reading operation accepts, \<open>m\<close> being the tokenizer's message. The end of
  the list is the end of the input. \<open>ofs'\<close> is the unread input and \<open>last_token'\<close> the
  input at the start of the last token, to which \<open>UnreadToken\<close> goes back.
\<close>

datatype lexeme =
  Kw Token | Word string | PathText EvalString | ValueText EvalString | Malformed string

record Lexer =
  ofs' :: "lexeme list"
  last_token' :: "lexeme list"

definition Start :: "lexeme list \<Rightarrow> Lexer" where
  "Start input = \<lparr>ofs' = input, last_token' = []\<rparr>"

fun token_of :: "lexeme \<Rightarrow> Token" where
  "token_of (Kw t) = t"
| "token_of (Word s) = IDENT"
| "token_of (PathText e) = ERROR"
| "token_of (ValueText e) = ERROR"
| "token_of (Malformed m) = ERROR"

definition ReadToken :: "Lexer \<Rightarrow> Token \<times> Lexer" where
  "ReadToken lx =
     (case ofs' lx of
        [] \<Rightarrow> (TEOF, lx\<lparr>last_token' := []\<rparr>)
      | x # xs \<Rightarrow> (token_of x, \<lparr>ofs' = xs, last_token' = x # xs\<rparr>))"

definition UnreadToken :: "Lexer \<Rightarrow> Lexer" where
  "UnreadToken lx = lx\<lparr>ofs' := last_token' lx\<rparr>"

definition PeekToken :: "Token \<Rightarrow> Lexer \<Rightarrow> bool \<times> Lexer" where
  "PeekToken t lx =
     (case ReadToken lx of
        (t', lx') \<Rightarrow> if t' = t then (True, lx') else (False, UnreadToken lx'))"

definition ReadIdent :: "Lexer \<Rightarrow> string option \<times> Lexer" where
  "ReadIdent lx =
     (case ofs' lx of
        Word s # xs \<Rightarrow> (Some s, \<lparr>ofs' = xs, last_token' = ofs' lx\<rparr>)
      | _ \<Rightarrow> (None, lx\<lparr>last_token' := ofs' lx\<rparr>))"

text \<open>
  \<open>ReadPath\<close> and \<open>ReadVarValue\<close> return \<open>Inl\<close> the message they store through their
  \<^verbatim>\<open>err\<close> argument when they fail (the input is then not consumed), and \<open>Inr\<close> the
  template otherwise. An empty path means that no path is left on the line.
\<close>

definition ReadPath :: "Lexer \<Rightarrow> (string + EvalString) \<times> Lexer" where
  "ReadPath lx =
     (case ofs' lx of
        [] \<Rightarrow> (Inl ''unexpected EOF'', lx\<lparr>last_token' := []\<rparr>)
      | Word s # xs \<Rightarrow> (Inr [RAW s], lx\<lparr>ofs' := xs\<rparr>)
      | PathText e # xs \<Rightarrow> (Inr e, lx\<lparr>ofs' := xs\<rparr>)
      | Malformed m # xs \<Rightarrow> (Inl m, lx\<lparr>last_token' := ofs' lx\<rparr>)
      | _ \<Rightarrow> (Inr [], lx))"

definition ReadVarValue :: "Lexer \<Rightarrow> (string + EvalString) \<times> Lexer" where
  "ReadVarValue lx =
     (case ofs' lx of
        [] \<Rightarrow> (Inl ''unexpected EOF'', lx\<lparr>last_token' := []\<rparr>)
      | ValueText e # xs \<Rightarrow> (Inr e, lx\<lparr>ofs' := xs\<rparr>)
      | Malformed m # xs \<Rightarrow> (Inl m, lx\<lparr>last_token' := ofs' lx\<rparr>)
      | _ \<Rightarrow> (Inl ''lexing error'', lx\<lparr>last_token' := ofs' lx\<rparr>))"

definition DescribeLastError :: "Lexer \<Rightarrow> string" where
  "DescribeLastError lx =
     (case last_token' lx of Malformed m # xs \<Rightarrow> m | _ \<Rightarrow> ''lexing error'')"

subsection \<open>Scopes, rules, pools, nodes, edges and the graph store\<close>

text \<open>
  Modelled from the spec: \<^verbatim>\<open>Rule\<close>, \<^verbatim>\<open>BindingEnv\<close> (\<^verbatim>\<open>eval_env.h\<close>), \<^verbatim>\<open>Pool\<close>, \<^verbatim>\<open>Node\<close>,
  \<^verbatim>\<open>Edge\<close> (graph.h) and \<^verbatim>\<open>State\<close> (state.h). Objects the C++ code reaches through
  pointers are kept in the store and named by an index: a scope by its position in
  \<open>envs'\<close> (position 0 is the root scope \<^verbatim>\<open>State::bindings_\<close>), an edge by its
  position in \<open>edges'\<close>, a node by its canonical path (one node per canonical path).
\<close>

record Rule =
  name' :: string
  rule_bindings' :: "string \<rightharpoonup> EvalString"

record BindingEnv =
  bindings' :: "string \<rightharpoonup> string"
  rules' :: "string \<rightharpoonup> Rule"
  parent' :: "nat option"
  rel_path' :: string
  abs_path' :: string

record Pool =
  pool_name' :: string
  depth' :: int

record Node =
  path' :: string
  slash_bits' :: nat
  node_env' :: nat
  in_edge' :: "nat option"
  out_edges' :: "nat list"
  dyndep_pending' :: bool

record Edge =
  rule' :: Rule
  pool' :: "string option"
  edge_env' :: nat
  outputs' :: "string list"
  inputs' :: "string list"
  implicit_outs' :: int
  implicit_deps' :: int
  order_only_deps' :: int
  dyndep' :: "string option"

record State =
  paths' :: "string \<rightharpoonup> Node"
  edges' :: "Edge list"
  pools' :: "string \<rightharpoonup> Pool"
  defaults' :: "string list"
  envs' :: "BindingEnv list"

text \<open>
  Variable and rule lookup walk up the parent chain to the first hit. A scope is
  created after its parent, so a parent's index is below its child's; the walk
  stops at an index that breaks this.
\<close>

function LookupVariable :: "BindingEnv list \<Rightarrow> nat \<Rightarrow> string \<Rightarrow> string" where
  "LookupVariable es i var =
     (if i < length es then
        (case bindings' (es ! i) var of
           Some v \<Rightarrow> v
         | None \<Rightarrow>
             (case parent' (es ! i) of
                Some p \<Rightarrow> if p < i then LookupVariable es p var else []
              | None \<Rightarrow> []))
      else [])"
  by pat_completeness auto
termination
  by (relation "measure (\<lambda>(es, i, var). i)") auto

declare LookupVariable.simps [simp del]

function LookupRule :: "BindingEnv list \<Rightarrow> nat \<Rightarrow> string \<Rightarrow> Rule option" where
  "LookupRule es i rule_name =
     (if i < length es then
        (case rules' (es ! i) rule_name of
           Some r \<Rightarrow> Some r
         | None \<Rightarrow>
             (case parent' (es ! i) of
                Some p \<Rightarrow> if p < i then LookupRule es p rule_name else None
              | None \<Rightarrow> None))
      else None)"
  by pat_completeness auto
termination
  by (relation "measure (\<lambda>(es, i, rule_name). i)") auto

declare LookupRule.simps [simp del]

definition LookupRuleCurrentScope :: "BindingEnv list \<Rightarrow> nat \<Rightarrow> string \<Rightarrow> Rule option" where
  "LookupRuleCurrentScope es i rule_name =
     (if i < length es then rules' (es ! i) rule_name else None)"

definition upd_env :: "nat \<Rightarrow> (BindingEnv \<Rightarrow> BindingEnv) \<Rightarrow> State \<Rightarrow> State" where
  "upd_env i f st =
     (if i < length (envs' st) then st\<lparr>envs' := (envs' st)[i := f (envs' st ! i)]\<rparr> else st)"

definition AddBinding :: "nat \<Rightarrow> string \<Rightarrow> string \<Rightarrow> State \<Rightarrow> State" where
  "AddBinding i key val st = upd_env i (\<lambda>e. e\<lparr>bindings' := (bindings' e)(key \<mapsto> val)\<rparr>) st"

definition AddRule :: "nat \<Rightarrow> Rule \<Rightarrow> State \<Rightarrow> State" where
  "AddRule i rule st = upd_env i (\<lambda>e. e\<lparr>rules' := (rules' e)(name' rule \<mapsto> rule)\<rparr>) st"

definition AsString :: "BindingEnv list \<Rightarrow> nat \<Rightarrow> string" where
  "AsString es i = (if i < length es then abs_path' (es ! i) else [])"

definition ApplyChdir :: "BindingEnv list \<Rightarrow> nat \<Rightarrow> string \<Rightarrow> string" where
  "ApplyChdir es i path = AsString es i @ path"

text \<open>
  \<^verbatim>\<open>new BindingEnv(parent)\<close> and \<^verbatim>\<open>new BindingEnv(parent, rel_path, abs_path)\<close>: the
  new scope is appended to the store and its index returned. A scope made without a
  directory keeps the directory of its parent.
\<close>

definition NewBindingEnv :: "nat \<Rightarrow> string \<Rightarrow> string \<Rightarrow> State \<Rightarrow> nat \<times> State" where
  "NewBindingEnv parent rel_path abs_path st =
     (length (envs' st),
      st\<lparr>envs' := envs' st @
         [\<lparr>bindings' = Map.empty, rules' = Map.empty, parent' = Some parent,
           rel_path' = rel_path, abs_path' = abs_path\<rparr>]\<rparr>)"

definition NewEdgeEnv :: "nat \<Rightarrow> State \<Rightarrow> nat \<times> State" where
  "NewEdgeEnv parent st = NewBindingEnv parent [] (AsString (envs' st) parent) st"

fun EvaluateFragment :: "BindingEnv list \<Rightarrow> nat \<Rightarrow> fragment \<Rightarrow> string" where
  "EvaluateFragment es i (RAW s) = s"
| "EvaluateFragment es i (SPECIAL v) = LookupVariable es i v"

definition Evaluate :: "BindingEnv list \<Rightarrow> nat \<Rightarrow> EvalString \<Rightarrow> string" where
  "Evaluate es i e = concat (map (EvaluateFragment es i) e)"

definition LookupPool :: "State \<Rightarrow> string \<Rightarrow> Pool option" where
  "LookupPool st name = pools' st name"

definition AddPool :: "Pool \<Rightarrow> State \<Rightarrow> State" where
  "AddPool pool st = st\<lparr>pools' := (pools' st)(pool_name' pool \<mapsto> pool)\<rparr>"

subsection \<open>The parser object\<close>

datatype DupeEdgeAction = kDupeEdgeActionWarn | kDupeEdgeActionError

datatype PhonyCycleAction = kPhonyCycleActionWarn | kPhonyCycleActionError

record ManifestParserOptions =
  dupe_edge_action' :: DupeEdgeAction
  phony_cycle_action' :: PhonyCycleAction

text \<open>
  Modelled from the spec: the file-reading collaborator (\<^verbatim>\<open>FileReader\<close>,
  \<^verbatim>\<open>disk_interface.h\<close>): a working-directory get/set pair, each returning success or
  an error message, and a reader of named buffers. Directories are opaque names:
  \<open>Chdir d\<close> succeeds when \<open>d\<close> is one of \<open>dirs'\<close>; a file is found by the current
  directory and its name.
\<close>

record FileReader =
  cwd' :: "string option"
  dirs' :: "string list"
  files' :: "(string \<times> string) \<rightharpoonup> lexeme list"

definition Getcwd :: "FileReader \<Rightarrow> string + string" where
  "Getcwd fr = (case cwd' fr of None \<Rightarrow> Inl ''No such file or directory'' | Some d \<Rightarrow> Inr d)"

definition Chdir :: "string \<Rightarrow> FileReader \<Rightarrow> string option \<times> FileReader" where
  "Chdir d fr =
     (if d \<in> set (dirs' fr) then (None, fr\<lparr>cwd' := Some d\<rparr>)
      else (Some ''No such file or directory'', fr))"

definition ReadFile :: "string \<Rightarrow> FileReader \<Rightarrow> string + lexeme list" where
  "ReadFile name fr =
     (case cwd' fr of
        None \<Rightarrow> Inl ''No such file or directory''
      | Some d \<Rightarrow>
          (case files' fr (d, name) of
             None \<Rightarrow> Inl ''No such file or directory''
           | Some input \<Rightarrow> Inr input))"

text \<open>
  The parser object with what its methods share: \<open>state'\<close> and \<open>file_reader'\<close> are
  reached through pointers and shared with nested parsers; \<open>err\<close> is the
  \<^verbatim>\<open>string* err\<close> every method is given; \<open>log\<close> holds the lines \<^verbatim>\<open>Warning()\<close> has
  printed.
\<close>

record ManifestParser =
  lexer' :: Lexer
  env' :: nat
  options' :: ManifestParserOptions
  quiet' :: bool
  state' :: State
  file_reader' :: FileReader
  err :: string
  log :: "string list"

text \<open>
  What the parser takes from files that are not part of the model:
  \<^verbatim>\<open>Lexer::TokenName\<close>; \<^verbatim>\<open>CanonicalizePath\<close> (util.h), which gives \<open>Inl\<close> its error
  message or \<open>Inr\<close> the canonical path and its separator marker;
  \<^verbatim>\<open>CheckNinjaVersion\<close> (version.h), which returns nothing and can only fail by
  ending the process: \<open>Some m\<close> is that fatal message, \<open>None\<close> a normal return;
  \<^verbatim>\<open>Edge::GetBinding\<close> and \<^verbatim>\<open>Edge::GetUnescapedDyndep\<close> (graph.h), which evaluate a
  binding of the edge at the given index.
\<close>

record externs =
  TokenName :: "Token \<Rightarrow> string"
  CanonicalizePath :: "string \<Rightarrow> string + (string \<times> nat)"
  CheckNinjaVersion :: "string \<Rightarrow> string option"
  GetBinding :: "State \<Rightarrow> nat \<Rightarrow> string \<Rightarrow> string"
  GetUnescapedDyndep :: "State \<Rightarrow> nat \<Rightarrow> string"

text \<open>
  \<^verbatim>\<open>lexer_.Error(message, err)\<close> stores the message (the file position it adds is
  left out) and returns false.
\<close>

definition LexerError :: "string \<Rightarrow> ManifestParser \<Rightarrow> bool \<times> ManifestParser" where
  "LexerError message ps = (False, ps\<lparr>err := message\<rparr>)"

definition Warning :: "string \<Rightarrow> ManifestParser \<Rightarrow> ManifestParser" where
  "Warning message ps = ps\<lparr>log := log ps @ [message]\<rparr>"

text \<open>
  Modelled from the spec: \<^verbatim>\<open>Parser::ExpectToken\<close> (parser.h), the structural error of
  an unexpected token where the grammar requires another.
\<close>

definition ExpectToken :: "externs \<Rightarrow> Token \<Rightarrow> ManifestParser \<Rightarrow> bool \<times> ManifestParser" where
  "ExpectToken X expected ps =
     (case ReadToken (lexer' ps) of
        (token, lx) \<Rightarrow>
          if token \<noteq> expected then
            LexerError (''expected '' @ TokenName X expected @ '', got '' @ TokenName X token)
              (ps\<lparr>lexer' := lx\<rparr>)
          else (True, ps\<lparr>lexer' := lx\<rparr>))"

subsection \<open>ParseLet\<close>

definition ParseLet :: "externs \<Rightarrow> ManifestParser \<Rightarrow> (string \<times> EvalString) option \<times> ManifestParser" where
  "ParseLet X ps =
     (case ReadIdent (lexer' ps) of
        (None, lx) \<Rightarrow> (None, snd (LexerError ''expected variable name'' (ps\<lparr>lexer' := lx\<rparr>)))
      | (Some key, lx) \<Rightarrow>
          (case ExpectToken X EQUALS (ps\<lparr>lexer' := lx\<rparr>) of
             (False, ps1) \<Rightarrow> (None, ps1)
           | (True, ps1) \<Rightarrow>
               (case ReadVarValue (lexer' ps1) of
                  (Inl e, lx2) \<Rightarrow> (None, ps1\<lparr>lexer' := lx2, err := e\<rparr>)
                | (Inr v, lx2) \<Rightarrow> (Some (key, v), ps1\<lparr>lexer' := lx2\<rparr>))))"

lemma ReadToken_length: "ReadToken lx = (t, lx') \<Longrightarrow> length (ofs' lx') \<le> length (ofs' lx)"
  by (auto simp: ReadToken_def split: list.splits)

lemma PeekToken_True_length:
  "PeekToken t lx = (True, lx') \<Longrightarrow> t \<noteq> TEOF \<Longrightarrow> length (ofs' lx') < length (ofs' lx)"
  by (auto simp: PeekToken_def ReadToken_def split: list.splits if_splits)

lemma PeekToken_False_ofs: "PeekToken t lx = (False, lx') \<Longrightarrow> ofs' lx' = ofs' lx"
  by (auto simp: PeekToken_def ReadToken_def UnreadToken_def split: list.splits if_splits)

lemma ReadPath_length: "ReadPath lx = (r, lx') \<Longrightarrow> length (ofs' lx') \<le> length (ofs' lx)"
  by (auto simp: ReadPath_def split: list.splits lexeme.splits)

lemma ReadPath_nonempty_length:
  "ReadPath lx = (Inr p, lx') \<Longrightarrow> p \<noteq> [] \<Longrightarrow> length (ofs' lx') < length (ofs' lx)"
  by (auto simp: ReadPath_def split: list.splits lexeme.splits)

lemma ReadPath_nonempty_decreases:
  "(x, lx') = ReadPath lx \<Longrightarrow> x = Inr p \<Longrightarrow> p \<noteq> [] \<Longrightarrow> length (ofs' lx') < length (ofs' lx)"
  using ReadPath_nonempty_length [of lx p lx'] by simp

lemma ExpectToken_length:
  "ExpectToken X t ps = (b, ps') \<Longrightarrow> length (ofs' (lexer' ps')) \<le> length (ofs' (lexer' ps))"
  by (auto simp: ExpectToken_def LexerError_def ReadToken_def split: list.splits if_splits)

lemma ParseLet_length:
  "ParseLet X ps = (r, ps') \<Longrightarrow> length (ofs' (lexer' ps')) \<le> length (ofs' (lexer' ps))"
  unfolding ParseLet_def
  by (auto simp: ReadIdent_def ReadVarValue_def LexerError_def
      split: list.splits lexeme.splits prod.splits option.splits bool.splits sum.splits
      dest!: ExpectToken_length)

lemma indent_let_decreases:
  assumes "(x, y) = PeekToken INDENT (lexer' ps)" and "x = True"
    and "(xa, ya) = ParseLet X (ps\<lparr>lexer' := y\<rparr>)"
  shows "length (ofs' (lexer' ya)) < length (ofs' (lexer' ps))"
proof -
  have "length (ofs' y) < length (ofs' (lexer' ps))"
    using assms(1,2) PeekToken_True_length [of INDENT "lexer' ps" y] by simp
  moreover have "length (ofs' (lexer' ya)) \<le> length (ofs' y)"
    using assms(3) ParseLet_length [of X "ps\<lparr>lexer' := y\<rparr>" xa ya] by simp
  ultimately show ?thesis by simp
qed

subsection \<open>ParsePool\<close>

text \<open>
  \<^verbatim>\<open>atol\<close> of the C library: leading white space, an optional sign, then the longest
  run of decimal digits; 0 when there is no digit; out of range, the nearest
  \<^verbatim>\<open>long\<close> (64 bits). \<open>long_to_int\<close> is the conversion of the assignment
  \<^verbatim>\<open>int depth = atol(...)\<close>, which keeps the low 32 bits.
\<close>

definition isspace :: "char \<Rightarrow> bool" where
  "isspace c = (c \<in> set [CHR '' '', CHR 0x09, CHR 0x0A, CHR 0x0B, CHR 0x0C, CHR 0x0D])"

definition isdigit :: "char \<Rightarrow> bool" where
  "isdigit c = (48 \<le> (of_char c :: nat) \<and> (of_char c :: nat) \<le> 57)"

fun digits_value :: "int \<Rightarrow> string \<Rightarrow> int" where
  "digits_value acc [] = acc"
| "digits_value acc (c # cs) =
     (if isdigit c then digits_value (acc * 10 + (int (of_char c) - 48)) cs else acc)"

definition clamp_long :: "int \<Rightarrow> int" where
  "clamp_long v = max (- (2 ^ 63)) (min (2 ^ 63 - 1) v)"

definition atol :: "string \<Rightarrow> int" where
  "atol s =
     (case dropWhile isspace s of
        [] \<Rightarrow> 0
      | c # cs \<Rightarrow>
          if c = CHR ''-'' then clamp_long (- digits_value 0 cs)
          else if c = CHR ''+'' then clamp_long (digits_value 0 cs)
          else clamp_long (digits_value 0 (c # cs)))"

definition long_to_int :: "int \<Rightarrow> int" where
  "long_to_int v = sint (word_of_int v :: 32 word)"

text \<open>
  The loop of \<^verbatim>\<open>ParsePool\<close> (lines 108 to 122). \<open>None\<close>: the method has returned false
  from inside the loop; \<open>Some depth\<close>: the loop has ended with this \<^verbatim>\<open>depth\<close>.
\<close>

function ParsePool_loop :: "externs \<Rightarrow> ManifestParser \<Rightarrow> int \<Rightarrow> int option \<times> ManifestParser" where
  "ParsePool_loop X ps depth =
     (case PeekToken INDENT (lexer' ps) of
        (False, lx) \<Rightarrow> (Some depth, ps\<lparr>lexer' := lx\<rparr>)
      | (True, lx) \<Rightarrow>
          (case ParseLet X (ps\<lparr>lexer' := lx\<rparr>) of
             (None, ps1) \<Rightarrow> (None, ps1)
           | (Some (key, val), ps1) \<Rightarrow>
               if key = ''depth'' then
                 (let depth_string = Evaluate (envs' (state' ps1)) (env' ps1) val;
                      depth1 = long_to_int (atol depth_string)
                  in if depth1 < 0 then (None, snd (LexerError ''invalid pool depth'' ps1))
                     else ParsePool_loop X ps1 depth1)
               else (None, snd (LexerError (''unexpected variable '' @ [CHR 0x27] @ key @ [CHR 0x27]) ps1))))"
  by pat_completeness auto
termination
proof (relation "measure (\<lambda>(X, ps, depth). length (ofs' (lexer' ps)))", goal_cases)
  case 1
  show ?case by simp
next
  case (2 X ps depth x y xa ya x2 xb yb xc xd)
  then show ?case
    using indent_let_decreases [of x y ps xa ya X] by simp
qed

declare ParsePool_loop.simps [simp del]

definition ParsePool :: "externs \<Rightarrow> ManifestParser \<Rightarrow> bool \<times> ManifestParser" where
  "ParsePool X ps =
     (case ReadIdent (lexer' ps) of
        (None, lx) \<Rightarrow> LexerError ''expected pool name'' (ps\<lparr>lexer' := lx\<rparr>)
      | (Some name, lx) \<Rightarrow>
          (case ExpectToken X NEWLINE (ps\<lparr>lexer' := lx\<rparr>) of
             (False, ps1) \<Rightarrow> (False, ps1)
           | (True, ps1) \<Rightarrow>
               if LookupPool (state' ps1) name \<noteq> None then
                 LexerError (''duplicate pool '' @ [CHR 0x27] @ name @ [CHR 0x27]) ps1
               else
                 (case ParsePool_loop X ps1 (- 1) of
                    (None, ps2) \<Rightarrow> (False, ps2)
                  | (Some depth, ps2) \<Rightarrow>
                      if depth < 0 then LexerError ''expected 'depth =' line'' ps2
                      else (True, ps2\<lparr>state' :=
                              AddPool \<lparr>pool_name' = name, depth' = depth\<rparr> (state' ps2)\<rparr>))))"

subsection \<open>ParseRule\<close>

text \<open>
  Modelled from the spec: \<^verbatim>\<open>Rule::IsReservedBinding\<close>, the fixed set of reserved
  binding names.
\<close>

definition IsReservedBinding :: "string \<Rightarrow> bool" where
  "IsReservedBinding var =
     (var \<in> set [''command'', ''description'', ''depfile'', ''deps'', ''dyndep'', ''generator'',
                 ''msvc_deps_prefix'', ''pool'', ''restat'', ''rspfile'', ''rspfile_content''])"

text \<open>
  \<^verbatim>\<open>rule->AddBinding(key, value)\<close>, and \<^verbatim>\<open>rule->bindings_[key]\<close>: indexing a
  \<^verbatim>\<open>std::map\<close> inserts an empty value for a key it does not hold.
\<close>

definition Rule_AddBinding :: "string \<Rightarrow> EvalString \<Rightarrow> Rule \<Rightarrow> Rule" where
  "Rule_AddBinding key val rule = rule\<lparr>rule_bindings' := (rule_bindings' rule)(key \<mapsto> val)\<rparr>"

definition Rule_index :: "string \<Rightarrow> Rule \<Rightarrow> EvalString \<times> Rule" where
  "Rule_index key rule =
     (case rule_bindings' rule key of
        None \<Rightarrow> ([], Rule_AddBinding key [] rule)
      | Some v \<Rightarrow> (v, rule))"

text \<open>
  The loop of \<^verbatim>\<open>ParseRule\<close> (lines 145 to 158). \<open>None\<close>: the method has returned false
  from inside the loop; \<open>Some rule\<close>: the loop has ended with this rule object.
\<close>

function ParseRule_loop :: "externs \<Rightarrow> ManifestParser \<Rightarrow> Rule \<Rightarrow> Rule option \<times> ManifestParser" where
  "ParseRule_loop X ps rule =
     (case PeekToken INDENT (lexer' ps) of
        (False, lx) \<Rightarrow> (Some rule, ps\<lparr>lexer' := lx\<rparr>)
      | (True, lx) \<Rightarrow>
          (case ParseLet X (ps\<lparr>lexer' := lx\<rparr>) of
             (None, ps1) \<Rightarrow> (None, ps1)
           | (Some (key, val), ps1) \<Rightarrow>
               if IsReservedBinding key then ParseRule_loop X ps1 (Rule_AddBinding key val rule)
               else (None, snd (LexerError (''unexpected variable '' @ [CHR 0x27] @ key @ [CHR 0x27]) ps1))))"
  by pat_completeness auto
termination
proof (relation "measure (\<lambda>(X, ps, rule). length (ofs' (lexer' ps)))", goal_cases)
  case 1
  show ?case by simp
next
  case (2 X ps rule x y xa ya x2 xb yb)
  then show ?case
    using indent_let_decreases [of x y ps xa ya X] by simp
qed

declare ParseRule_loop.simps [simp del]

definition ParseRule :: "externs \<Rightarrow> ManifestParser \<Rightarrow> bool \<times> ManifestParser" where
  "ParseRule X ps =
     (case ReadIdent (lexer' ps) of
        (None, lx) \<Rightarrow> LexerError ''expected rule name'' (ps\<lparr>lexer' := lx\<rparr>)
      | (Some name, lx) \<Rightarrow>
          (case ExpectToken X NEWLINE (ps\<lparr>lexer' := lx\<rparr>) of
             (False, ps1) \<Rightarrow> (False, ps1)
           | (True, ps1) \<Rightarrow>
               if LookupRuleCurrentScope (envs' (state' ps1)) (env' ps1) name \<noteq> None then
                 LexerError (''duplicate rule '' @ [CHR 0x27] @ name @ [CHR 0x27]) ps1
               else
                 (case ParseRule_loop X ps1 \<lparr>name' = name, rule_bindings' = Map.empty\<rparr> of
                    (None, ps2) \<Rightarrow> (False, ps2)
                  | (Some rule, ps2) \<Rightarrow>
                      (case Rule_index ''rspfile'' rule of
                         (rspfile, rule1) \<Rightarrow>
                           (case Rule_index ''rspfile_content'' rule1 of
                              (rspfile_content, rule2) \<Rightarrow>
                                if (rspfile = []) \<noteq> (rspfile_content = []) then
                                  LexerError ''rspfile and rspfile_content need to be both specified'' ps2
                                else
                                  (case Rule_index ''command'' rule2 of
                                     (command, rule3) \<Rightarrow>
                                       if command = [] then
                                         LexerError ''expected 'command =' line'' ps2
                                       else
                                         (True, ps2\<lparr>state' :=
                                            AddRule (env' ps2) rule3 (state' ps2)\<rparr>)))))))"

subsection \<open>ParseDefault\<close>

text \<open>
  Modelled from the spec: \<^verbatim>\<open>State::AddDefault\<close>, which resolves the path, qualified
  with the directory of the given scope, by lookup only and appends it to the
  default targets; an unknown path is an error.
\<close>

definition AddDefault :: "string \<Rightarrow> nat \<Rightarrow> State \<Rightarrow> string + State" where
  "AddDefault path env st =
     (case paths' st (ApplyChdir (envs' st) env path) of
        None \<Rightarrow> Inl (''unknown target '' @ [CHR 0x27] @ path @ [CHR 0x27])
      | Some node \<Rightarrow> Inr (st\<lparr>defaults' := defaults' st @ [ApplyChdir (envs' st) env path]\<rparr>))"

text \<open>
  The do-while loop of \<^verbatim>\<open>ParseDefault\<close> (lines 190 to 202), entered with the path
  read last. \<open>None\<close>: the method has returned false from inside the loop.
\<close>

function ParseDefault_loop :: "externs \<Rightarrow> ManifestParser \<Rightarrow> EvalString \<Rightarrow> bool \<times> ManifestParser" where
  "ParseDefault_loop X ps eval =
     (case CanonicalizePath X (Evaluate (envs' (state' ps)) (env' ps) eval) of
        Inl path_err \<Rightarrow> LexerError path_err ps
      | Inr (path, slash_bits) \<Rightarrow>
          (case AddDefault path (env' ps) (state' ps) of
             Inl path_err \<Rightarrow> LexerError path_err ps
           | Inr st \<Rightarrow>
               (case ReadPath (lexer' ps) of
                  (Inl e, lx) \<Rightarrow> (False, ps\<lparr>state' := st, lexer' := lx, err := e\<rparr>)
                | (Inr eval1, lx) \<Rightarrow>
                    if eval1 \<noteq> [] then ParseDefault_loop X (ps\<lparr>state' := st, lexer' := lx\<rparr>) eval1
                    else (True, ps\<lparr>state' := st, lexer' := lx\<rparr>))))"
  by pat_completeness auto
termination
proof (relation "measure (\<lambda>(X, ps, eval). length (ofs' (lexer' ps)))", goal_cases)
  case 1
  show ?case by simp
next
  case 2
  then show ?case
    by (auto dest: ReadPath_nonempty_decreases)
qed

declare ParseDefault_loop.simps [simp del]

definition ParseDefault :: "externs \<Rightarrow> ManifestParser \<Rightarrow> bool \<times> ManifestParser" where
  "ParseDefault X ps =
     (case ReadPath (lexer' ps) of
        (Inl e, lx) \<Rightarrow> (False, ps\<lparr>lexer' := lx, err := e\<rparr>)
      | (Inr eval, lx) \<Rightarrow>
          if eval = [] then LexerError ''expected target name'' (ps\<lparr>lexer' := lx\<rparr>)
          else
            (case ParseDefault_loop X (ps\<lparr>lexer' := lx\<rparr>) eval of
               (False, ps1) \<Rightarrow> (False, ps1)
             | (True, ps1) \<Rightarrow> ExpectToken X NEWLINE ps1))"

subsection \<open>ParseEdge\<close>

text \<open>
  Modelled from the spec: \<^verbatim>\<open>State::AddEdge\<close>, \<^verbatim>\<open>State::GetNode\<close>, \<^verbatim>\<open>State::AddOut\<close>
  and \<^verbatim>\<open>State::AddIn\<close> (state.h). \<open>GetNode\<close> interns: it creates the node of a
  canonical path on the first reference and reuses it thereafter. \<open>AddOut\<close> and
  \<open>AddIn\<close> take a path as the statement writes it and name its node by that path
  qualified with the directory of the scope of the edge (\<open>ApplyChdir\<close>), so that a
  path \<^verbatim>\<open>out.o\<close> of a manifest included with \<^verbatim>\<open>chdir = sub\<close> is the node \<^verbatim>\<open>sub/out.o\<close>.
  \<open>AddOut\<close> refuses (returns false) when the node already has a producing edge. The edge under
  construction is the one at index \<open>eid\<close> of \<open>edges'\<close>; \<open>None\<close> as \<open>pool'\<close> is the
  default pool.
\<close>

definition AddEdge :: "Rule \<Rightarrow> State \<Rightarrow> nat \<times> State" where
  "AddEdge rule st =
     (length (edges' st),
      st\<lparr>edges' := edges' st @
         [\<lparr>rule' = rule, pool' = None, edge_env' = 0, outputs' = [], inputs' = [],
           implicit_outs' = 0, implicit_deps' = 0, order_only_deps' = 0, dyndep' = None\<rparr>]\<rparr>)"

definition upd_edge :: "nat \<Rightarrow> (Edge \<Rightarrow> Edge) \<Rightarrow> State \<Rightarrow> State" where
  "upd_edge eid f st = st\<lparr>edges' := (edges' st)[eid := f (edges' st ! eid)]\<rparr>"

definition upd_node :: "string \<Rightarrow> (Node \<Rightarrow> Node) \<Rightarrow> State \<Rightarrow> State" where
  "upd_node path f st =
     (case paths' st path of
        None \<Rightarrow> st
      | Some node \<Rightarrow> st\<lparr>paths' := (paths' st)(path \<mapsto> f node)\<rparr>)"

definition GetNode :: "string \<Rightarrow> nat \<Rightarrow> nat \<Rightarrow> State \<Rightarrow> State" where
  "GetNode path env slash_bits st =
     (case paths' st path of
        Some node \<Rightarrow> st
      | None \<Rightarrow>
          st\<lparr>paths' := (paths' st)(path \<mapsto>
             \<lparr>path' = path, slash_bits' = slash_bits, node_env' = env, in_edge' = None,
              out_edges' = [], dyndep_pending' = False\<rparr>)\<rparr>)"

definition has_in_edge :: "State \<Rightarrow> string \<Rightarrow> bool" where
  "has_in_edge st path = (case paths' st path of None \<Rightarrow> False | Some node \<Rightarrow> in_edge' node \<noteq> None)"

definition AddOut :: "nat \<Rightarrow> string \<Rightarrow> nat \<Rightarrow> State \<Rightarrow> bool \<times> State" where
  "AddOut eid path slash_bits st =
     (let env = edge_env' (edges' st ! eid);
          node_path = ApplyChdir (envs' st) env path;
          st1 = GetNode node_path env slash_bits st
      in if has_in_edge st1 node_path then (False, st1)
         else (True,
               upd_node node_path (\<lambda>node. node\<lparr>in_edge' := Some eid\<rparr>)
                 (upd_edge eid (\<lambda>edge. edge\<lparr>outputs' := outputs' edge @ [node_path]\<rparr>) st1)))"

definition AddIn :: "nat \<Rightarrow> string \<Rightarrow> nat \<Rightarrow> State \<Rightarrow> State" where
  "AddIn eid path slash_bits st =
     (let env = edge_env' (edges' st ! eid);
          node_path = ApplyChdir (envs' st) env path;
          st1 = GetNode node_path env slash_bits st
      in upd_node node_path (\<lambda>node. node\<lparr>out_edges' := out_edges' node @ [eid]\<rparr>)
           (upd_edge eid (\<lambda>edge. edge\<lparr>inputs' := inputs' edge @ [node_path]\<rparr>) st1))"

text \<open>
  Modelled from the spec: \<^verbatim>\<open>Edge::maybe_phonycycle_diagnostic\<close> (graph.h), the test of
  the compatibility filter: the edge is a single-output edge; the filter does not
  special-case by rule identity.
\<close>

definition maybe_phonycycle_diagnostic :: "Edge \<Rightarrow> bool" where
  "maybe_phonycycle_diagnostic edge = (length (outputs' edge) = 1)"

text \<open>
  The path-reading loop \<^verbatim>\<open>for (;;) { ReadPath; if empty break; push_back; ++count }\<close>
  that \<^verbatim>\<open>ParseEdge\<close> runs for the implicit outputs (lines 229 to 237), the inputs
  (254 to 262), the implicit inputs (267 to 275) and the order-only inputs (281 to
  289); the loop of the explicit outputs (215 to 223) is the same loop written with
  \<^verbatim>\<open>while\<close>, and counts nothing. \<open>Inl\<close> is the message of a failed \<open>ReadPath\<close>.
\<close>

function ReadPaths :: "Lexer \<Rightarrow> EvalString list \<Rightarrow> int \<Rightarrow> (string + EvalString list \<times> int) \<times> Lexer" where
  "ReadPaths lx paths count =
     (case ReadPath lx of
        (Inl e, lx1) \<Rightarrow> (Inl e, lx1)
      | (Inr out, lx1) \<Rightarrow>
          if out = [] then (Inr (paths, count), lx1)
          else ReadPaths lx1 (paths @ [out]) (count + 1))"
  by pat_completeness auto
termination
proof (relation "measure (\<lambda>(lx, paths, count). length (ofs' lx))", goal_cases)
  case 1
  show ?case by simp
next
  case 2
  then show ?case
    by (auto dest: ReadPath_nonempty_decreases)
qed

declare ReadPaths.simps [simp del]

text \<open>
  A value of type \<open>'a step\<close> is the result of a part of a method: \<open>Inl (b, ps)\<close> when
  the method has executed \<^verbatim>\<open>return b\<close> in that part, leaving the state \<open>ps\<close>; \<open>Inr x\<close>
  when control goes on to the next part with the values \<open>x\<close>.
\<close>

type_synonym 'a step = "(bool \<times> ManifestParser) + 'a"

text \<open>
  Lines 211 to 241: the explicit outputs, the implicit outputs after a \<open>PIPE\<close>, and
  the check that there is an output. The failure of \<open>ReadPath\<close> in the implicit
  outputs executes \<^verbatim>\<open>return err;\<close>: \<^verbatim>\<open>err\<close> is a non-null \<^verbatim>\<open>string*\<close>, which converts to
  \<^verbatim>\<open>true\<close>.
\<close>

definition ParseEdge_outs :: "ManifestParser \<Rightarrow> (EvalString list \<times> int \<times> ManifestParser) step" where
  "ParseEdge_outs ps =
     (case ReadPaths (lexer' ps) [] 0 of
        (Inl e, lx) \<Rightarrow> Inl (False, ps\<lparr>lexer' := lx, err := e\<rparr>)
      | (Inr (outs, n), lx) \<Rightarrow>
          (case (case PeekToken PIPE lx of
                   (False, lx1) \<Rightarrow> (Inr (outs, 0), lx1)
                 | (True, lx1) \<Rightarrow> ReadPaths lx1 outs 0) of
             (Inl e, lx2) \<Rightarrow> Inl (True, ps\<lparr>lexer' := lx2, err := e\<rparr>)
           | (Inr (outs1, implicit_outs), lx2) \<Rightarrow>
               if outs1 = [] then Inl (LexerError ''expected path'' (ps\<lparr>lexer' := lx2\<rparr>))
               else Inr (outs1, implicit_outs, ps\<lparr>lexer' := lx2\<rparr>)))"

text \<open>
  Lines 243 to 293: the colon, the rule, the explicit inputs, the implicit inputs
  after a \<open>PIPE\<close> (again with \<^verbatim>\<open>return err;\<close>), the order-only inputs after a
  \<open>PIPE2\<close>, and the end of the line.
\<close>

definition ParseEdge_ins ::
  "externs \<Rightarrow> ManifestParser \<Rightarrow> (Rule \<times> EvalString list \<times> int \<times> int \<times> ManifestParser) step" where
  "ParseEdge_ins X ps =
     (case ExpectToken X COLON ps of
        (False, ps1) \<Rightarrow> Inl (False, ps1)
      | (True, ps1) \<Rightarrow>
          (case ReadIdent (lexer' ps1) of
             (None, lx) \<Rightarrow> Inl (LexerError ''expected build command name'' (ps1\<lparr>lexer' := lx\<rparr>))
           | (Some rule_name, lx) \<Rightarrow>
               (case LookupRule (envs' (state' ps1)) (env' ps1) rule_name of
                  None \<Rightarrow>
                    Inl (LexerError (''unknown build rule '' @ [CHR 0x27] @ rule_name @ [CHR 0x27])
                           (ps1\<lparr>lexer' := lx\<rparr>))
                | Some rule \<Rightarrow>
                    (case ReadPaths lx [] 0 of
                       (Inl e, lx1) \<Rightarrow> Inl (False, ps1\<lparr>lexer' := lx1, err := e\<rparr>)
                     | (Inr (ins, n), lx1) \<Rightarrow>
                         (case (case PeekToken PIPE lx1 of
                                  (False, lx2) \<Rightarrow> (Inr (ins, 0), lx2)
                                | (True, lx2) \<Rightarrow> ReadPaths lx2 ins 0) of
                            (Inl e, lx3) \<Rightarrow> Inl (True, ps1\<lparr>lexer' := lx3, err := e\<rparr>)
                          | (Inr (ins1, implicit), lx3) \<Rightarrow>
                              (case (case PeekToken PIPE2 lx3 of
                                       (False, lx4) \<Rightarrow> (Inr (ins1, 0), lx4)
                                     | (True, lx4) \<Rightarrow> ReadPaths lx4 ins1 0) of
                                 (Inl e, lx5) \<Rightarrow> Inl (False, ps1\<lparr>lexer' := lx5, err := e\<rparr>)
                               | (Inr (ins2, order_only), lx5) \<Rightarrow>
                                   (case ExpectToken X NEWLINE (ps1\<lparr>lexer' := lx5\<rparr>) of
                                      (False, ps2) \<Rightarrow> Inl (False, ps2)
                                    | (True, ps2) \<Rightarrow>
                                        Inr (rule, ins2, implicit, order_only, ps2))))))))"

text \<open>
  Lines 295 to 306: the indented bindings of the edge. The scope of the edge is
  allocated only when there is an indented line; the loop is entered with the
  result of the last \<open>PeekToken\<close>.
\<close>

function ParseEdge_bindings_loop ::
  "externs \<Rightarrow> nat \<Rightarrow> bool \<Rightarrow> ManifestParser \<Rightarrow> ManifestParser step" where
  "ParseEdge_bindings_loop X env has_indent_token ps =
     (if has_indent_token then
        (case ParseLet X ps of
           (None, ps1) \<Rightarrow> Inl (False, ps1)
         | (Some (key, val), ps1) \<Rightarrow>
             (let ps2 = ps1\<lparr>state' :=
                          AddBinding env key (Evaluate (envs' (state' ps1)) (env' ps1) val) (state' ps1)\<rparr>
              in case PeekToken INDENT (lexer' ps2) of
                   (b, lx) \<Rightarrow> ParseEdge_bindings_loop X env b (ps2\<lparr>lexer' := lx\<rparr>)))
      else Inr ps)"
  by pat_completeness auto
termination
proof (relation "measure (\<lambda>(X, env, b, ps). 2 * length (ofs' (lexer' ps)) + (if b then 1 else 0))",
    goal_cases)
  case 1
  show ?case by simp
next
  case (2 X env has_indent_token ps x y x2 xa ya xb xc yb)
  have le: "length (ofs' (lexer' y)) \<le> length (ofs' (lexer' ps))"
    using 2(2) ParseLet_length [of X ps x y] by simp
  have eq: "lexer' xb = lexer' y"
    using 2(5) by simp
  show ?case
  proof (cases xc)
    case True
    then have "length (ofs' yb) < length (ofs' (lexer' xb))"
      using 2(6) PeekToken_True_length [of INDENT "lexer' xb" yb] by simp
    with le eq True 2(1) show ?thesis by simp
  next
    case False
    then have "ofs' yb = ofs' (lexer' xb)"
      using 2(6) PeekToken_False_ofs [of INDENT "lexer' xb" yb] by simp
    with le eq False 2(1) show ?thesis by simp
  qed
qed

declare ParseEdge_bindings_loop.simps [simp del]

definition ParseEdge_bindings :: "externs \<Rightarrow> ManifestParser \<Rightarrow> (nat \<times> ManifestParser) step" where
  "ParseEdge_bindings X ps =
     (case PeekToken INDENT (lexer' ps) of
        (has_indent_token, lx) \<Rightarrow>
          (case (if has_indent_token then NewEdgeEnv (env' ps) (state' ps)
                 else (env' ps, state' ps)) of
             (env, st) \<Rightarrow>
               (case ParseEdge_bindings_loop X env has_indent_token (ps\<lparr>lexer' := lx, state' := st\<rparr>) of
                  Inl r \<Rightarrow> Inl r
                | Inr ps1 \<Rightarrow> Inr (env, ps1))))"

text \<open>
  The comparison \<^verbatim>\<open>e - i <= static_cast<size_t>(implicit_outs)\<close> of line 338 is between
  unsigned 64-bit values.
\<close>

definition to_size_t :: "int \<Rightarrow> int" where
  "to_size_t n = n mod 2 ^ 64"

text \<open>
  Lines 320 to 342: the loop over the outputs; the list holds the outputs from index
  \<^verbatim>\<open>i\<close> on, so its length is \<^verbatim>\<open>e - i\<close>. It ends with the count of implicit outputs.
\<close>

fun ParseEdge_add_outs ::
  "externs \<Rightarrow> nat \<Rightarrow> nat \<Rightarrow> EvalString list \<Rightarrow> int \<Rightarrow> ManifestParser \<Rightarrow> (int \<times> ManifestParser) step" where
  "ParseEdge_add_outs X env eid [] implicit_outs ps = Inr (implicit_outs, ps)"
| "ParseEdge_add_outs X env eid (out # outs) implicit_outs ps =
     (case CanonicalizePath X (Evaluate (envs' (state' ps)) env out) of
        Inl path_err \<Rightarrow> Inl (LexerError path_err ps)
      | Inr (path, slash_bits) \<Rightarrow>
          (case AddOut eid path slash_bits (state' ps) of
             (True, st) \<Rightarrow> ParseEdge_add_outs X env eid outs implicit_outs (ps\<lparr>state' := st\<rparr>)
           | (False, st) \<Rightarrow>
               if dupe_edge_action' (options' ps) = kDupeEdgeActionError then
                 Inl (LexerError (''multiple rules generate '' @ path @ '' [-w dupbuild=err]'')
                        (ps\<lparr>state' := st\<rparr>))
               else
                 ParseEdge_add_outs X env eid outs
                   (if int (length (out # outs)) \<le> to_size_t implicit_outs then implicit_outs - 1
                    else implicit_outs)
                   (if \<not> quiet' ps then
                      Warning (''multiple rules generate '' @ path @
                               ''. builds involving this target will not be correct; '' @
                               ''continuing anyway [-w dupbuild=warn]'')
                        (ps\<lparr>state' := st\<rparr>)
                    else ps\<lparr>state' := st\<rparr>)))"

text \<open>Lines 353 to 360: the loop over the inputs.\<close>

fun ParseEdge_add_ins ::
  "externs \<Rightarrow> nat \<Rightarrow> nat \<Rightarrow> EvalString list \<Rightarrow> ManifestParser \<Rightarrow> ManifestParser step" where
  "ParseEdge_add_ins X env eid [] ps = Inr ps"
| "ParseEdge_add_ins X env eid (i # ins) ps =
     (case CanonicalizePath X (Evaluate (envs' (state' ps)) env i) of
        Inl path_err \<Rightarrow> Inl (LexerError path_err ps)
      | Inr (path, slash_bits) \<Rightarrow>
          ParseEdge_add_ins X env eid ins (ps\<lparr>state' := AddIn eid path slash_bits (state' ps)\<rparr>))"

text \<open>
  Lines 364 to 381: the filter of self-referencing edges. \<^verbatim>\<open>std::remove\<close> followed by
  \<^verbatim>\<open>erase\<close> keeps the inputs that differ from the output, in their order; its result
  differs from \<^verbatim>\<open>end()\<close> exactly when an input was removed.
\<close>

definition ParseEdge_phonycycle :: "nat \<Rightarrow> ManifestParser \<Rightarrow> ManifestParser" where
  "ParseEdge_phonycycle eid ps =
     (let edge = edges' (state' ps) ! eid
      in if phony_cycle_action' (options' ps) = kPhonyCycleActionWarn \<and>
            maybe_phonycycle_diagnostic edge then
           (let out = outputs' edge ! 0
            in if out \<in> set (inputs' edge) then
                 (let ps1 = ps\<lparr>state' :=
                        upd_edge eid (\<lambda>edge. edge\<lparr>inputs' := removeAll out (inputs' edge)\<rparr>) (state' ps)\<rparr>
                  in if \<not> quiet' ps then
                       Warning (''phony target '' @ [CHR 0x27] @ out @ [CHR 0x27] @
                                '' names itself as an input; ignoring [-w phonycycle=warn]'') ps1
                     else ps1)
               else ps)
         else ps)"

text \<open>Lines 394 to 409: the dyndep binding.\<close>

definition ParseEdge_dyndep :: "externs \<Rightarrow> nat \<Rightarrow> nat \<Rightarrow> ManifestParser \<Rightarrow> bool \<times> ManifestParser" where
  "ParseEdge_dyndep X env eid ps =
     (let dyndep = GetUnescapedDyndep X (state' ps) eid
      in if dyndep \<noteq> [] then
           (case CanonicalizePath X (ApplyChdir (envs' (state' ps)) env dyndep) of
              Inl e \<Rightarrow> (False, ps\<lparr>err := e\<rparr>)
            | Inr (dyndep1, slash_bits) \<Rightarrow>
                (let st1 = GetNode dyndep1 env slash_bits (state' ps);
                     st2 = upd_edge eid (\<lambda>edge. edge\<lparr>dyndep' := Some dyndep1\<rparr>) st1;
                     st3 = upd_node dyndep1 (\<lambda>node. node\<lparr>dyndep_pending' := True\<rparr>) st2
                 in if dyndep1 \<notin> set (inputs' (edges' st3 ! eid)) then
                      LexerError (''dyndep '' @ [CHR 0x27] @ dyndep1 @ [CHR 0x27] @ '' is not an input'')
                        (ps\<lparr>state' := st3\<rparr>)
                    else (True, ps\<lparr>state' := st3\<rparr>)))
         else (True, ps))"

text \<open>Lines 308 to 317: the new edge, its scope and its pool.\<close>

definition ParseEdge_new_edge :: "externs \<Rightarrow> Rule \<Rightarrow> nat \<Rightarrow> ManifestParser \<Rightarrow> (nat \<times> ManifestParser) step" where
  "ParseEdge_new_edge X rule env ps =
     (case AddEdge rule (state' ps) of
        (eid, st) \<Rightarrow>
          (let st1 = upd_edge eid (\<lambda>edge. edge\<lparr>edge_env' := env\<rparr>) st;
               pool_name = GetBinding X st1 eid ''pool''
           in if pool_name \<noteq> [] then
                (case LookupPool st1 pool_name of
                   None \<Rightarrow>
                     Inl (LexerError (''unknown pool name '' @ [CHR 0x27] @ pool_name @ [CHR 0x27])
                            (ps\<lparr>state' := st1\<rparr>))
                 | Some pool \<Rightarrow>
                     Inr (eid, ps\<lparr>state' := upd_edge eid (\<lambda>edge. edge\<lparr>pool' := Some pool_name\<rparr>) st1\<rparr>))
              else Inr (eid, ps\<lparr>state' := st1\<rparr>)))"

text \<open>
  Lines 319 to 389: the outputs and the inputs are linked to the edge at index
  \<open>eid\<close>, the last of \<open>edges'\<close>; an edge left without outputs is taken off the end of
  \<open>edges'\<close> again (\<^verbatim>\<open>pop_back\<close>) and the method returns true.
\<close>

definition ParseEdge_link ::
  "externs \<Rightarrow> EvalString list \<Rightarrow> int \<Rightarrow> EvalString list \<Rightarrow> int \<Rightarrow> int \<Rightarrow> nat \<Rightarrow> nat \<Rightarrow>
   ManifestParser \<Rightarrow> ManifestParser step" where
  "ParseEdge_link X outs implicit_outs ins implicit order_only env eid ps =
     (case ParseEdge_add_outs X env eid outs implicit_outs ps of
        Inl r \<Rightarrow> Inl r
      | Inr (implicit_outs1, ps2) \<Rightarrow>
          if outputs' (edges' (state' ps2) ! eid) = [] then
            Inl (True, ps2\<lparr>state' := (state' ps2)\<lparr>edges' := butlast (edges' (state' ps2))\<rparr>\<rparr>)
          else
            (case ParseEdge_add_ins X env eid ins
                    (ps2\<lparr>state' := upd_edge eid
                       (\<lambda>edge. edge\<lparr>implicit_outs' := implicit_outs1\<rparr>) (state' ps2)\<rparr>) of
               Inl r \<Rightarrow> Inl r
             | Inr ps3 \<Rightarrow>
                 (let ps4 = ParseEdge_phonycycle eid
                        (ps3\<lparr>state' := upd_edge eid
                           (\<lambda>edge. edge\<lparr>implicit_deps' := implicit,
                                         order_only_deps' := order_only\<rparr>) (state' ps3)\<rparr>);
                      deps_type = GetBinding X (state' ps4) eid ''deps''
                  in if deps_type \<noteq> [] \<and> length (outputs' (edges' (state' ps4) ! eid)) > 1 then
                       Inl (LexerError (''multiple outputs aren't (yet?) supported by depslog; '' @
                                        ''bring this up on the mailing list if it affects you'') ps4)
                     else Inr ps4)))"

definition ParseEdge :: "externs \<Rightarrow> ManifestParser \<Rightarrow> bool \<times> ManifestParser" where
  "ParseEdge X ps =
     (case ParseEdge_outs ps of
        Inl r \<Rightarrow> r
      | Inr (outs, implicit_outs, ps1) \<Rightarrow>
          (case ParseEdge_ins X ps1 of
             Inl r \<Rightarrow> r
           | Inr (rule, ins, implicit, order_only, ps2) \<Rightarrow>
               (case ParseEdge_bindings X ps2 of
                  Inl r \<Rightarrow> r
                | Inr (env, ps3) \<Rightarrow>
                    (case ParseEdge_new_edge X rule env ps3 of
                       Inl r \<Rightarrow> r
                     | Inr (eid, ps4) \<Rightarrow>
                         (case ParseEdge_link X outs implicit_outs ins implicit order_only env eid ps4 of
                            Inl r \<Rightarrow> r
                          | Inr ps5 \<Rightarrow> ParseEdge_dyndep X env eid ps5)))))"

subsection \<open>ParseFileInclude\<close>

text \<open>
  A parse ends in one of three ways: the method returns true or false, or
  \<^verbatim>\<open>CheckNinjaVersion\<close> ends the process with a fatal message. The nested parse is
  run by the function \<open>parse\<close>, which gives \<open>None\<close> when it does not come back.
\<close>

datatype outcome = Return bool | Fatal string

definition kPhonyRule :: Rule where
  "kPhonyRule = \<lparr>name' = ''phony'', rule_bindings' = Map.empty\<rparr>"

text \<open>
  The loop of \<^verbatim>\<open>ParseFileInclude\<close> (lines 427 to 465). \<open>Inl\<close>: the method has returned
  from inside the loop (a failed \<open>Getcwd\<close> or \<open>Chdir\<close>); \<open>Inr\<close>: the loop has ended
  with these values of \<^verbatim>\<open>ok\<close>, \<^verbatim>\<open>has_chdir\<close>, \<^verbatim>\<open>prev_cwd\<close> and \<^verbatim>\<open>rel_path\<close>.
\<close>

function ParseFileInclude_loop ::
  "externs \<Rightarrow> bool \<Rightarrow> bool \<Rightarrow> string \<Rightarrow> string \<Rightarrow> ManifestParser \<Rightarrow>
   (bool \<times> bool \<times> string \<times> string \<times> ManifestParser) step" where
  "ParseFileInclude_loop X new_scope has_chdir prev_cwd rel_path ps =
     (case PeekToken INDENT (lexer' ps) of
        (False, lx) \<Rightarrow> Inr (True, has_chdir, prev_cwd, rel_path, ps\<lparr>lexer' := lx\<rparr>)
      | (True, lx) \<Rightarrow>
          (case ParseLet X (ps\<lparr>lexer' := lx\<rparr>) of
             (None, ps1) \<Rightarrow> Inr (False, has_chdir, prev_cwd, rel_path, ps1)
           | (Some (key, let_value), ps1) \<Rightarrow>
               if key \<noteq> ''chdir'' then
                 Inr (False, has_chdir, prev_cwd, rel_path,
                      snd (LexerError (''illegal key '' @ [CHR 0x27] @ key @ [CHR 0x27] @
                                       '' (only 'chdir' is supported)'') ps1))
               else if \<not> new_scope then
                 Inr (False, has_chdir, prev_cwd, rel_path,
                      snd (LexerError ''invalid use of 'chdir' in include line'' ps1))
               else if has_chdir then
                 Inr (False, has_chdir, prev_cwd, rel_path,
                      snd (LexerError ''duplicate 'chdir' in subninja'' ps1))
               else
                 (let rel_path1 = Evaluate (envs' (state' ps1)) (env' ps1) let_value
                  in case Getcwd (file_reader' ps1) of
                       Inl dir_err \<Rightarrow> Inl (False, ps1\<lparr>err := ''Getcwd: '' @ dir_err\<rparr>)
                     | Inr prev_cwd1 \<Rightarrow>
                         (case Chdir rel_path1 (file_reader' ps1) of
                            (Some dir_err, fr) \<Rightarrow>
                              Inl (False, ps1\<lparr>file_reader' := fr,
                                     err := ''Chdir to '' @ [CHR 0x27] @ rel_path1 @ [CHR 0x27] @ '': '' @ dir_err\<rparr>)
                          | (None, fr) \<Rightarrow>
                              ParseFileInclude_loop X new_scope True prev_cwd1 (rel_path1 @ ''/'')
                                (ps1\<lparr>file_reader' := fr\<rparr>)))))"
  by pat_completeness auto
termination
proof (relation "measure (\<lambda>(X, new_scope, has_chdir, prev_cwd, rel_path, ps). length (ofs' (lexer' ps)))",
    goal_cases)
  case 1
  show ?case by simp
next
  case 2
  then show ?case
    using indent_let_decreases by simp
qed

declare ParseFileInclude_loop.simps [simp del]

text \<open>
  Lines 481 to 487: every interned node whose path starts with the directory of the
  new scope gets the new scope as its own.
\<close>

definition ResetEnvs :: "string \<Rightarrow> nat \<Rightarrow> State \<Rightarrow> State" where
  "ResetEnvs abs_path env st =
     st\<lparr>paths' := (\<lambda>path. case paths' st path of
                        None \<Rightarrow> None
                      | Some node \<Rightarrow>
                          if prefix abs_path path then Some (node\<lparr>node_env' := env\<rparr>)
                          else Some node)\<rparr>"

text \<open>
  Modelled from the spec: \<^verbatim>\<open>Parser::Load\<close> (parser.h), which reads the named buffer
  through the file reader and parses it with a lexer of its own.
\<close>

definition Load ::
  "(ManifestParser \<Rightarrow> (outcome \<times> ManifestParser) option) \<Rightarrow> string \<Rightarrow> ManifestParser \<Rightarrow>
   (outcome \<times> ManifestParser) option" where
  "Load parse filename ps =
     (case ReadFile filename (file_reader' ps) of
        Inl read_err \<Rightarrow>
          Some (Return False,
                ps\<lparr>err := ''loading '' @ [CHR 0x27] @ filename @ [CHR 0x27] @ '': '' @ read_err\<rparr>)
      | Inr input \<Rightarrow> parse (ps\<lparr>lexer' := Start input\<rparr>))"

text \<open>
  Lines 467 to 496: under \<^verbatim>\<open>if (ok)\<close>, the nested parser, its scope and its run; the
  result is the value of \<^verbatim>\<open>ok\<close> after the block. The nested parser
  shares \<open>state'\<close> and \<open>file_reader'\<close> (and \<open>err\<close> and the log) with this one and has
  a lexer and an \<open>env'\<close> of its own; its constructor sets \<open>quiet'\<close> to false.
\<close>

definition ParseFileInclude_nested ::
  "(ManifestParser \<Rightarrow> (outcome \<times> ManifestParser) option) \<Rightarrow> bool \<Rightarrow> string \<Rightarrow> string \<Rightarrow> string \<Rightarrow>
   bool \<Rightarrow> ManifestParser \<Rightarrow> (outcome \<times> ManifestParser) option" where
  "ParseFileInclude_nested parse new_scope path parent_path rel_path ok ps =
     (if ok then
        (case (if new_scope then
                 (case NewBindingEnv (env' ps) rel_path (parent_path @ rel_path) (state' ps) of
                    (env, st) \<Rightarrow>
                      if rel_path \<noteq> [] then
                        (env, ResetEnvs (AsString (envs' st) env) env (AddRule env kPhonyRule st))
                      else (env, st))
               else (env' ps, state' ps)) of
           (env, st) \<Rightarrow>
             (case Load parse path
                     \<lparr>lexer' = Start [], env' = env, options' = options' ps, quiet' = False,
                      state' = st, file_reader' = file_reader' ps, err = err ps, log = log ps\<rparr> of
                None \<Rightarrow> None
              | Some (r, sub) \<Rightarrow>
                  Some (r, ps\<lparr>state' := state' sub, file_reader' := file_reader' sub,
                              err := err sub, log := log sub\<rparr>)))
      else Some (Return ok, ps))"

text \<open>Lines 498 to 509: the working directory is put back.\<close>

definition ParseFileInclude_restore ::
  "bool \<Rightarrow> string \<Rightarrow> bool \<Rightarrow> ManifestParser \<Rightarrow> bool \<times> ManifestParser" where
  "ParseFileInclude_restore has_chdir prev_cwd ok ps =
     (if has_chdir then
        (case Chdir prev_cwd (file_reader' ps) of
           (Some dir_err, fr) \<Rightarrow>
             if ok then
               (False, ps\<lparr>file_reader' := fr,
                         err := ''restore cwd = '' @ [CHR 0x27] @ prev_cwd @ [CHR 0x27] @ '': '' @ dir_err\<rparr>)
             else (ok, ps\<lparr>file_reader' := fr\<rparr>)
         | (None, fr) \<Rightarrow> (ok, ps\<lparr>file_reader' := fr\<rparr>))
      else (ok, ps))"

definition ParseFileInclude ::
  "externs \<Rightarrow> (ManifestParser \<Rightarrow> (outcome \<times> ManifestParser) option) \<Rightarrow> bool \<Rightarrow> ManifestParser \<Rightarrow>
   (outcome \<times> ManifestParser) option" where
  "ParseFileInclude X parse new_scope ps =
     (case ReadPath (lexer' ps) of
        (Inl e, lx) \<Rightarrow> Some (Return False, ps\<lparr>lexer' := lx, err := e\<rparr>)
      | (Inr eval, lx) \<Rightarrow>
          (let path = Evaluate (envs' (state' ps)) (env' ps) eval
           in case ExpectToken X NEWLINE (ps\<lparr>lexer' := lx\<rparr>) of
                (False, ps1) \<Rightarrow> Some (Return False, ps1)
              | (True, ps1) \<Rightarrow>
                  (let parent_path = AsString (envs' (state' ps1)) (env' ps1)
                   in case ParseFileInclude_loop X new_scope False [] [] ps1 of
                        Inl (b, ps2) \<Rightarrow> Some (Return b, ps2)
                      | Inr (ok, has_chdir, prev_cwd, rel_path, ps2) \<Rightarrow>
                          (case ParseFileInclude_nested parse new_scope path parent_path rel_path ok ps2 of
                             None \<Rightarrow> None
                           | Some (Fatal m, ps3) \<Rightarrow> Some (Fatal m, ps3)
                           | Some (Return ok1, ps3) \<Rightarrow>
                               (case ParseFileInclude_restore has_chdir prev_cwd ok1 ps3 of
                                  (b, ps4) \<Rightarrow> Some (Return b, ps4))))))"

subsection \<open>Parse\<close>

text \<open>
  The loop of \<^verbatim>\<open>Parse\<close> (lines 38 to 90). An inclusion can include itself, so the
  parse need not end: the first argument bounds the number of statements and nested
  parses still to run, and \<open>None\<close> says that the bound was reached.
\<close>

primrec Parse_loop :: "nat \<Rightarrow> externs \<Rightarrow> ManifestParser \<Rightarrow> (outcome \<times> ManifestParser) option" where
  "Parse_loop 0 X ps = None"
| "Parse_loop (Suc n) X ps =
     (case ReadToken (lexer' ps) of
        (token, lx) \<Rightarrow>
          (case token of
             POOL \<Rightarrow>
               (case ParsePool X (ps\<lparr>lexer' := lx\<rparr>) of
                  (False, ps1) \<Rightarrow> Some (Return False, ps1)
                | (True, ps1) \<Rightarrow> Parse_loop n X ps1)
           | BUILD \<Rightarrow>
               (case ParseEdge X (ps\<lparr>lexer' := lx\<rparr>) of
                  (False, ps1) \<Rightarrow> Some (Return False, ps1)
                | (True, ps1) \<Rightarrow> Parse_loop n X ps1)
           | RULE \<Rightarrow>
               (case ParseRule X (ps\<lparr>lexer' := lx\<rparr>) of
                  (False, ps1) \<Rightarrow> Some (Return False, ps1)
                | (True, ps1) \<Rightarrow> Parse_loop n X ps1)
           | DEFAULT \<Rightarrow>
               (case ParseDefault X (ps\<lparr>lexer' := lx\<rparr>) of
                  (False, ps1) \<Rightarrow> Some (Return False, ps1)
                | (True, ps1) \<Rightarrow> Parse_loop n X ps1)
           | IDENT \<Rightarrow>
               (case ParseLet X (ps\<lparr>lexer' := UnreadToken lx\<rparr>) of
                  (None, ps1) \<Rightarrow> Some (Return False, ps1)
                | (Some (name, let_value), ps1) \<Rightarrow>
                    (let val = Evaluate (envs' (state' ps1)) (env' ps1) let_value
                     in case (if name = ''ninja_required_version'' then CheckNinjaVersion X val
                              else None) of
                          Some fatal \<Rightarrow> Some (Fatal fatal, ps1)
                        | None \<Rightarrow>
                            Parse_loop n X
                              (ps1\<lparr>state' := AddBinding (env' ps1) name val (state' ps1)\<rparr>)))
           | INCLUDE \<Rightarrow>
               (case ParseFileInclude X (Parse_loop n X) False (ps\<lparr>lexer' := lx\<rparr>) of
                  None \<Rightarrow> None
                | Some (Return False, ps1) \<Rightarrow> Some (Return False, ps1)
                | Some (Return True, ps1) \<Rightarrow> Parse_loop n X ps1
                | Some (Fatal m, ps1) \<Rightarrow> Some (Fatal m, ps1))
           | SUBNINJA \<Rightarrow>
               (case ParseFileInclude X (Parse_loop n X) True (ps\<lparr>lexer' := lx\<rparr>) of
                  None \<Rightarrow> None
                | Some (Return False, ps1) \<Rightarrow> Some (Return False, ps1)
                | Some (Return True, ps1) \<Rightarrow> Parse_loop n X ps1
                | Some (Fatal m, ps1) \<Rightarrow> Some (Fatal m, ps1))
           | ERROR \<Rightarrow>
               (case LexerError (DescribeLastError lx) (ps\<lparr>lexer' := lx\<rparr>) of
                  (b, ps1) \<Rightarrow> Some (Return b, ps1))
           | TEOF \<Rightarrow> Some (Return True, ps\<lparr>lexer' := lx\<rparr>)
           | NEWLINE \<Rightarrow> Parse_loop n X (ps\<lparr>lexer' := lx\<rparr>)
           | _ \<Rightarrow>
               (case LexerError (''unexpected '' @ TokenName X token) (ps\<lparr>lexer' := lx\<rparr>) of
                  (b, ps1) \<Rightarrow> Some (Return b, ps1))))"

definition Parse ::
  "nat \<Rightarrow> externs \<Rightarrow> lexeme list \<Rightarrow> ManifestParser \<Rightarrow> (outcome \<times> ManifestParser) option" where
  "Parse n X input ps = Parse_loop n X (ps\<lparr>lexer' := Start input\<rparr>)"

subsection \<open>Inputs and example objects of the theorems\<close>

text \<open>
  \<open>depth_line v\<close> is an indented line \<^verbatim>\<open>depth = v\<close>; \<open>pool_depth_value ps v\<close> is the
  \<^verbatim>\<open>int\<close> that \<^verbatim>\<open>ParsePool\<close> computes from the value \<open>v\<close> of such a line; \<open>no_indent rest\<close>
  says that the input \<open>rest\<close> does not start with an indentation. \<open>is_nonneg_integer\<close>
  follows the words of the specification: the text of a non-negative integer, a
  non-empty run of decimal digits. The example objects are a parser over a store
  with one rule \<^verbatim>\<open>cat\<close>, and collaborators for it.
\<close>

definition depth_line :: "EvalString \<Rightarrow> lexeme list" where
  "depth_line v = [Kw INDENT, Word ''depth'', Kw EQUALS, ValueText v]"

definition pool_depth_value :: "ManifestParser \<Rightarrow> EvalString \<Rightarrow> int" where
  "pool_depth_value ps v = long_to_int (atol (Evaluate (envs' (state' ps)) (env' ps) v))"

definition no_indent :: "lexeme list \<Rightarrow> bool" where
  "no_indent rest = (case rest of [] \<Rightarrow> True | x # xs \<Rightarrow> token_of x \<noteq> INDENT)"

definition is_nonneg_integer :: "string \<Rightarrow> bool" where
  "is_nonneg_integer s = (s \<noteq> [] \<and> list_all isdigit s)"

fun example_TokenName :: "Token \<Rightarrow> string" where
  "example_TokenName ERROR = ''lexing error''"
| "example_TokenName BUILD = ''build''"
| "example_TokenName COLON = '':''"
| "example_TokenName DEFAULT = ''default''"
| "example_TokenName EQUALS = ''=''"
| "example_TokenName IDENT = ''identifier''"
| "example_TokenName INCLUDE = ''include''"
| "example_TokenName INDENT = ''indent''"
| "example_TokenName NEWLINE = ''newline''"
| "example_TokenName PIPE2 = ''||''"
| "example_TokenName PIPE = ''|''"
| "example_TokenName POOL = ''pool''"
| "example_TokenName RULE = ''rule''"
| "example_TokenName SUBNINJA = ''subninja''"
| "example_TokenName TEOF = ''eof''"

definition example_externs :: externs where
  "example_externs =
     \<lparr>TokenName = example_TokenName,
      CanonicalizePath = (\<lambda>path. if path = [] then Inl ''empty path'' else Inr (path, 0)),
      CheckNinjaVersion = (\<lambda>version. if atol version > 1 then Some ''ninja version incompatible'' else None),
      GetBinding = (\<lambda>st eid key. LookupVariable (envs' st) (edge_env' (edges' st ! eid)) key),
      GetUnescapedDyndep = (\<lambda>st eid. LookupVariable (envs' st) (edge_env' (edges' st ! eid)) ''dyndep'')\<rparr>"

definition example_state :: State where
  "example_state =
     \<lparr>paths' = Map.empty, edges' = [], pools' = Map.empty, defaults' = [],
      envs' = [\<lparr>bindings' = Map.empty,
                rules' = [''cat'' \<mapsto> \<lparr>name' = ''cat'', rule_bindings' = [''command'' \<mapsto> [RAW ''cat'']]\<rparr>],
                parent' = None, rel_path' = [], abs_path' = []\<rparr>]\<rparr>"

definition example_parser :: "lexeme list \<Rightarrow> ManifestParser" where
  "example_parser input =
     \<lparr>lexer' = Start input, env' = 0,
      options' = \<lparr>dupe_edge_action' = kDupeEdgeActionWarn, phony_cycle_action' = kPhonyCycleActionWarn\<rparr>,
      quiet' = False, state' = example_state,
      file_reader' = \<lparr>cwd' = Some ''/top'', dirs' = [''/top'', ''sub''],
                       files' = [(''sub'', ''build.ninja'') \<mapsto> [Kw NEWLINE],
                                 (''sub'', ''bad.ninja'') \<mapsto> [Kw COLON]]\<rparr>,
      err = [], log = []\<rparr>"

text \<open>Two rule statements: one well formed, one without a \<^verbatim>\<open>command\<close> line.\<close>

definition rule_statement_ok :: "lexeme list" where
  "rule_statement_ok = [Word ''cc'', Kw NEWLINE, Kw INDENT, Word ''command'', Kw EQUALS, ValueText [RAW ''gcc'']]"

definition rule_statement_no_command :: "lexeme list" where
  "rule_statement_no_command =
     [Word ''cc'', Kw NEWLINE, Kw INDENT, Word ''description'', Kw EQUALS, ValueText [RAW ''compile'']]"

text \<open>
  The build statement \<^verbatim>\<open>| imp: cat\<close> (after the keyword), and the input \<^verbatim>\<open>build a |\<close>
  that ends after the \<open>PIPE\<close>.
\<close>

definition build_only_implicit :: "lexeme list" where
  "build_only_implicit = [Kw PIPE, Word ''imp'', Kw COLON, Word ''cat'', Kw NEWLINE]"

definition build_cut_off :: "lexeme list" where
  "build_cut_off = [Kw BUILD, Word ''a'', Kw PIPE]"

text \<open>
  A store with one edge of rule \<^verbatim>\<open>cat\<close> whose output \<^verbatim>\<open>a\<close> is twice among its inputs;
  the statement \<^verbatim>\<open>build a: cat b a\<close>; and two build statements with a dyndep binding, the
  second of which declares it as an input.
\<close>

definition example_self_edge :: Edge where
  "example_self_edge =
     \<lparr>rule' = \<lparr>name' = ''cat'', rule_bindings' = [''command'' \<mapsto> [RAW ''cat'']]\<rparr>, pool' = None,
      edge_env' = 0, outputs' = [''a''], inputs' = [''b'', ''a'', ''c'', ''a''],
      implicit_outs' = 0, implicit_deps' = 0, order_only_deps' = 0, dyndep' = None\<rparr>"

definition example_self_parser :: ManifestParser where
  "example_self_parser = (example_parser [])\<lparr>state' := example_state\<lparr>edges' := [example_self_edge]\<rparr>\<rparr>"

definition build_self_input :: "lexeme list" where
  "build_self_input = [Word ''a'', Kw COLON, Word ''cat'', Word ''b'', Word ''a'', Kw NEWLINE]"

definition build_dyndep_missing :: "lexeme list" where
  "build_dyndep_missing =
     [Word ''out'', Kw COLON, Word ''cat'', Word ''in'', Kw NEWLINE,
      Kw INDENT, Word ''dyndep'', Kw EQUALS, ValueText [RAW ''dd'']]"

definition build_dyndep_declared :: "lexeme list" where
  "build_dyndep_declared =
     [Word ''out'', Kw COLON, Word ''cat'', Word ''in'', Kw PIPE, Word ''dd'', Kw NEWLINE,
      Kw INDENT, Word ''dyndep'', Kw EQUALS, ValueText [RAW ''dd'']]"

text \<open>
  The message of a failed restore (line 505); a \<^verbatim>\<open>subninja\<close> statement with
  \<^verbatim>\<open>chdir = sub\<close>; and the nested parse it leads to in the example parser.
\<close>

definition restore_message :: "string \<Rightarrow> string \<Rightarrow> string" where
  "restore_message prev_cwd dir_err = ''restore cwd = '' @ [CHR 0x27] @ prev_cwd @ [CHR 0x27] @ '': '' @ dir_err"

definition subninja_chdir :: "string \<Rightarrow> lexeme list" where
  "subninja_chdir file = [Word file, Kw NEWLINE, Kw INDENT, Word ''chdir'', Kw EQUALS, ValueText [RAW ''sub'']]"

definition example_nested :: "(outcome \<times> ManifestParser) option" where
  "example_nested =
     ParseFileInclude_nested (Parse_loop 3 example_externs) True ''build.ninja'' [] ''sub/'' True
       ((example_parser [])\<lparr>lexer' := \<lparr>ofs' = [], last_token' = []\<rparr>,
          file_reader' := (file_reader' (example_parser []))\<lparr>cwd' := Some ''sub''\<rparr>\<rparr>)"

text \<open>
  A parser in a scope with the directory \<^verbatim>\<open>sub/\<close> (a child of the root scope); an input
  whose second build statement has a dyndep binding and only a duplicate output; and
  the stages of \<^verbatim>\<open>ParseEdge\<close> on the statement that declares its dyndep as an input, read
  in that scope.
\<close>

definition example_sub_parser :: "lexeme list \<Rightarrow> ManifestParser" where
  "example_sub_parser input =
     (example_parser input)\<lparr>env' := 1,
        state' := example_state\<lparr>envs' := envs' example_state @
          [\<lparr>bindings' = Map.empty, rules' = Map.empty, parent' = Some 0,
            rel_path' = ''sub/'', abs_path' = ''sub/''\<rparr>]\<rparr>\<rparr>"

definition dyndep_after_discard :: "lexeme list" where
  "dyndep_after_discard =
     [Kw BUILD, Word ''a'', Kw COLON, Word ''cat'', Word ''x'', Kw NEWLINE,
      Kw BUILD, Word ''a'', Kw COLON, Word ''cat'', Word ''y'', Kw NEWLINE,
      Kw INDENT, Word ''dyndep'', Kw EQUALS, ValueText [RAW ''dd'']]"

definition dyn_s1 :: "EvalString list \<times> int \<times> ManifestParser" where
  "dyn_s1 = projr (ParseEdge_outs (example_sub_parser build_dyndep_declared))"

definition dyn_s2 :: "Rule \<times> EvalString list \<times> int \<times> int \<times> ManifestParser" where
  "dyn_s2 = projr (ParseEdge_ins example_externs (snd (snd dyn_s1)))"

definition dyn_s3 :: "nat \<times> ManifestParser" where
  "dyn_s3 = projr (ParseEdge_bindings example_externs (snd (snd (snd (snd dyn_s2)))))"

definition dyn_s4 :: "nat \<times> ManifestParser" where
  "dyn_s4 = projr (ParseEdge_new_edge example_externs (fst dyn_s2) (fst dyn_s3) (snd dyn_s3))"

definition dyn_s5 :: ManifestParser where
  "dyn_s5 = projr (ParseEdge_link example_externs (fst dyn_s1) (fst (snd dyn_s1)) (fst (snd dyn_s2))
                     (fst (snd (snd dyn_s2))) (fst (snd (snd (snd dyn_s2)))) (fst dyn_s3) (fst dyn_s4)
                     (snd dyn_s4))"

text \<open>
  \<open>no_leading_digit s\<close>: after its leading white space and one optional sign, \<open>s\<close> does
  not go on with a decimal digit, so that \<^verbatim>\<open>atol\<close> finds no integer to read.
\<close>

definition no_leading_digit :: "string \<Rightarrow> bool" where
  "no_leading_digit s =
     (case dropWhile isspace s of
        [] \<Rightarrow> True
      | c # cs \<Rightarrow>
          if c = CHR ''-'' \<or> c = CHR ''+'' then (case cs of [] \<Rightarrow> True | d # ds \<Rightarrow> \<not> isdigit d)
          else \<not> isdigit c)"




definition dupe_warning :: "string \<Rightarrow> string" where
  "dupe_warning path =
     ''multiple rules generate '' @ path @
     ''. builds involving this target will not be correct; '' @
     ''continuing anyway [-w dupbuild=warn]''"

definition dupe_warned :: "string \<Rightarrow> ManifestParser \<Rightarrow> ManifestParser" where
  "dupe_warned path ps = (if quiet' ps then ps else ps\<lparr>log := log ps @ [dupe_warning path]\<rparr>)"











section \<open>Properties\<close>

subsection \<open>Pool statements\<close>

lemma PeekToken_no_indent:
  "no_indent rest \<Longrightarrow> ofs' lx = rest \<Longrightarrow> PeekToken INDENT lx = (False, \<lparr>ofs' = rest, last_token' = rest\<rparr>)"
  by (auto simp: no_indent_def PeekToken_def ReadToken_def UnreadToken_def split: list.splits)

lemma pool_depth_value_lexer [simp]: "pool_depth_value (ps\<lparr>lexer' := lx\<rparr>) v = pool_depth_value ps v"
  by (simp add: pool_depth_value_def)

lemma ParsePool_loop_line:
  "ParsePool_loop X (ps\<lparr>lexer' := \<lparr>ofs' = depth_line v @ tl0, last_token' = lt\<rparr>\<rparr>) d =
     (if pool_depth_value ps v < 0
      then (None, ps\<lparr>lexer' := \<lparr>ofs' = tl0, last_token' = Kw EQUALS # ValueText v # tl0\<rparr>, err := ''invalid pool depth''\<rparr>)
      else ParsePool_loop X (ps\<lparr>lexer' := \<lparr>ofs' = tl0, last_token' = Kw EQUALS # ValueText v # tl0\<rparr>\<rparr>) (pool_depth_value ps v))"
  apply (subst ParsePool_loop.simps)
  apply (simp add: depth_line_def PeekToken_def ReadToken_def ParseLet_def ReadIdent_def ExpectToken_def
      ReadVarValue_def LexerError_def pool_depth_value_def Let_def)
  done

lemma ParsePool_loop_end:
  assumes "no_indent rest"
  shows "ParsePool_loop X (ps\<lparr>lexer' := \<lparr>ofs' = rest, last_token' = lt\<rparr>\<rparr>) d = (Some d, ps\<lparr>lexer' := \<lparr>ofs' = rest, last_token' = rest\<rparr>\<rparr>)"
  using assms
  apply (subst ParsePool_loop.simps)
  apply (simp add: PeekToken_no_indent)
  done

lemma ParsePool_loop_lines_ok:
  assumes "no_indent rest" "\<forall>u\<in>set vs. 0 \<le> pool_depth_value ps u"
  shows "ParsePool_loop X (ps\<lparr>lexer' := \<lparr>ofs' = concat (map depth_line vs) @ rest, last_token' = lt\<rparr>\<rparr>) d =
     (Some (last (d # map (pool_depth_value ps) vs)), ps\<lparr>lexer' := \<lparr>ofs' = rest, last_token' = rest\<rparr>\<rparr>)"
  using assms
proof (induction vs arbitrary: d lt)
  case Nil
  then show ?case by (simp add: ParsePool_loop_end)
next
  case (Cons v vs)
  then show ?case by (simp add: ParsePool_loop_line)
qed

lemma ParsePool_loop_lines_bad:
  assumes "\<exists>u\<in>set vs. pool_depth_value ps u < 0"
  shows "fst (ParsePool_loop X (ps\<lparr>lexer' := \<lparr>ofs' = concat (map depth_line vs) @ rest, last_token' = lt\<rparr>\<rparr>) d) = None
     \<and> err (snd (ParsePool_loop X (ps\<lparr>lexer' := \<lparr>ofs' = concat (map depth_line vs) @ rest, last_token' = lt\<rparr>\<rparr>) d)) = ''invalid pool depth''
     \<and> state' (snd (ParsePool_loop X (ps\<lparr>lexer' := \<lparr>ofs' = concat (map depth_line vs) @ rest, last_token' = lt\<rparr>\<rparr>) d)) = state' ps"
  using assms
proof (induction vs arbitrary: d lt)
  case Nil
  then show ?case by simp
next
  case (Cons v vs)
  show ?case
  proof (cases "pool_depth_value ps v < 0")
    case True
    then show ?thesis by (simp add: ParsePool_loop_line)
  next
    case False
    with Cons.prems have "\<exists>u\<in>set vs. pool_depth_value ps u < 0" by auto
    from Cons.IH [OF this] False show ?thesis by (simp add: ParsePool_loop_line)
  qed
qed

lemma ParsePool_header:
  assumes "LookupPool (state' ps) name = None"
  shows "ParsePool X (ps\<lparr>lexer' := \<lparr>ofs' = Word name # Kw NEWLINE # body, last_token' = lt\<rparr>\<rparr>) =
     (case ParsePool_loop X (ps\<lparr>lexer' := \<lparr>ofs' = body, last_token' = Kw NEWLINE # body\<rparr>\<rparr>) (- 1) of
        (None, ps2) \<Rightarrow> (False, ps2)
      | (Some depth, ps2) \<Rightarrow>
          if depth < 0 then LexerError ''expected 'depth =' line'' ps2
          else (True, ps2\<lparr>state' := AddPool \<lparr>pool_name' = name, depth' = depth\<rparr> (state' ps2)\<rparr>))"
  using assms
  by (simp add: ParsePool_def ReadIdent_def ExpectToken_def ReadToken_def)

text \<open>
  Claim C10. Within one pool statement, several indented \<^verbatim>\<open>depth =\<close> lines are
  accepted without any duplicate-key error: when the value of every line converts to
  a non-negative \<^verbatim>\<open>int\<close>, the statement parses and the pool is registered with the
  value of the last line; when the value of some line is negative, the statement
  fails with \<^verbatim>\<open>invalid pool depth\<close> and the store is unchanged.
\<close>

theorem ParsePool_repeated_depth:
  assumes "no_indent rest" and "LookupPool (state' ps) name = None"
  shows "((\<forall>u\<in>set (vs @ [v]). 0 \<le> pool_depth_value ps u) \<longrightarrow>
            ParsePool X (ps\<lparr>lexer' := \<lparr>ofs' = Word name # Kw NEWLINE # concat (map depth_line (vs @ [v])) @ rest, last_token' = lt\<rparr>\<rparr>) =
              (True, ps\<lparr>lexer' := \<lparr>ofs' = rest, last_token' = rest\<rparr>,
                        state' := AddPool \<lparr>pool_name' = name, depth' = pool_depth_value ps v\<rparr> (state' ps)\<rparr>))
       \<and> ((\<exists>u\<in>set (vs @ [v]). pool_depth_value ps u < 0) \<longrightarrow>
            (case ParsePool X (ps\<lparr>lexer' := \<lparr>ofs' = Word name # Kw NEWLINE # concat (map depth_line (vs @ [v])) @ rest, last_token' = lt\<rparr>\<rparr>) of
               (b, ps1) \<Rightarrow> \<not> b \<and> err ps1 = ''invalid pool depth'' \<and> state' ps1 = state' ps))"
proof (intro conjI impI)
  assume ok: "\<forall>u\<in>set (vs @ [v]). 0 \<le> pool_depth_value ps u"
  then have "0 \<le> pool_depth_value ps v" by simp
  then show "ParsePool X (ps\<lparr>lexer' := \<lparr>ofs' = Word name # Kw NEWLINE # concat (map depth_line (vs @ [v])) @ rest, last_token' = lt\<rparr>\<rparr>) =
              (True, ps\<lparr>lexer' := \<lparr>ofs' = rest, last_token' = rest\<rparr>,
                        state' := AddPool \<lparr>pool_name' = name, depth' = pool_depth_value ps v\<rparr> (state' ps)\<rparr>)"
    using ParsePool_loop_lines_ok [OF assms(1) ok, of X _ "- 1"]
    by (simp add: ParsePool_header [OF assms(2)])
next
  assume bad: "\<exists>u\<in>set (vs @ [v]). pool_depth_value ps u < 0"
  show "case ParsePool X (ps\<lparr>lexer' := \<lparr>ofs' = Word name # Kw NEWLINE # concat (map depth_line (vs @ [v])) @ rest, last_token' = lt\<rparr>\<rparr>) of
               (b, ps1) \<Rightarrow> \<not> b \<and> err ps1 = ''invalid pool depth'' \<and> state' ps1 = state' ps"
  proof -
    obtain r ps1 where eq: "ParsePool_loop X (ps\<lparr>lexer' := \<lparr>ofs' = concat (map depth_line (vs @ [v])) @ rest,
        last_token' = Kw NEWLINE # concat (map depth_line (vs @ [v])) @ rest\<rparr>\<rparr>) (- 1) = (r, ps1)"
      by force
    with ParsePool_loop_lines_bad [OF bad, of X rest "Kw NEWLINE # concat (map depth_line (vs @ [v])) @ rest" "- 1"]
    have "r = None" "err ps1 = ''invalid pool depth''" "state' ps1 = state' ps"
      by simp_all
    with eq show ?thesis
      by (simp add: ParsePool_header [OF assms(2)])
  qed
qed

lemma example_depth_4: "pool_depth_value (example_parser []) [RAW ''4''] = 4"
  by code_simp
lemma example_depth_2: "pool_depth_value (example_parser []) [RAW ''2''] = 2"
  by code_simp
lemma example_depth_minus_3: "pool_depth_value (example_parser []) [RAW ''-3''] = - 3"
  by code_simp

lemma example_no_pool: "LookupPool (state' (example_parser [])) ''p'' = None"
  by (simp add: LookupPool_def example_parser_def example_state_def)

lemma long_to_int_in_range: "- (2 ^ 31) \<le> k \<Longrightarrow> k < 2 ^ 31 \<Longrightarrow> long_to_int k = k"
  by (simp add: long_to_int_def sint_sbintrunc' signed_take_bit_int_eq_self)

lemma atol_no_leading_digit:
  assumes "no_leading_digit s"
  shows "atol s = 0"
proof (cases "dropWhile isspace s")
  case Nil
  show ?thesis unfolding atol_def Nil by simp
next
  case (Cons c cs)
  show ?thesis
  proof (cases "c = CHR ''-'' \<or> c = CHR ''+''")
    case True
    with assms have "cs = [] \<or> (\<exists>d ds. cs = d # ds \<and> \<not> isdigit d)"
      unfolding no_leading_digit_def Cons by (auto split: list.splits)
    then have "digits_value 0 cs = 0" by auto
    with True show ?thesis unfolding atol_def Cons by (auto simp: clamp_long_def)
  next
    case False
    with assms have "\<not> isdigit c" unfolding no_leading_digit_def Cons by simp
    with False show ?thesis unfolding atol_def Cons by (simp add: clamp_long_def)
  qed
qed

text \<open>
  Claim C5, as amended. The value of a \<^verbatim>\<open>depth\<close> line is read the way \<^verbatim>\<open>atol\<close> reads
  it: leading white space, an optional sign, then the leading decimal digits,
  whatever follows being ignored, and 0 when no digit is there. When the reading is
  within the range of \<^verbatim>\<open>int\<close>, the pool statement fails with \<^verbatim>\<open>invalid pool depth\<close>
  exactly when the reading is negative, and otherwise registers the pool with the
  reading as its depth. A value with no leading digit (so no integer at all) reads
  as 0 and is accepted as depth 0. A pool statement with no \<^verbatim>\<open>depth\<close> line fails with
  \<^verbatim>\<open>expected 'depth =' line\<close>.
\<close>

theorem ParsePool_depth_amended:
  assumes "no_indent rest" and "LookupPool (state' ps) name = None"
    and "depth_string = Evaluate (envs' (state' ps)) (env' ps) v"
    and "- (2 ^ 31) \<le> atol depth_string" and "atol depth_string < 2 ^ 31"
  shows "ParsePool X (ps\<lparr>lexer' := \<lparr>ofs' = Word name # Kw NEWLINE # depth_line v @ rest, last_token' = lt\<rparr>\<rparr>) =
           (if atol depth_string < 0 then
              (False, ps\<lparr>lexer' := \<lparr>ofs' = rest, last_token' = Kw EQUALS # ValueText v # rest\<rparr>,
                         err := ''invalid pool depth''\<rparr>)
            else
              (True, ps\<lparr>lexer' := \<lparr>ofs' = rest, last_token' = rest\<rparr>,
                        state' := AddPool \<lparr>pool_name' = name, depth' = atol depth_string\<rparr> (state' ps)\<rparr>))
       \<and> (no_leading_digit depth_string \<longrightarrow>
            ParsePool X (ps\<lparr>lexer' := \<lparr>ofs' = Word name # Kw NEWLINE # depth_line v @ rest, last_token' = lt\<rparr>\<rparr>) =
              (True, ps\<lparr>lexer' := \<lparr>ofs' = rest, last_token' = rest\<rparr>,
                        state' := AddPool \<lparr>pool_name' = name, depth' = 0\<rparr> (state' ps)\<rparr>))
       \<and> ParsePool X (ps\<lparr>lexer' := \<lparr>ofs' = Word name # Kw NEWLINE # rest, last_token' = lt\<rparr>\<rparr>) =
           (False, ps\<lparr>lexer' := \<lparr>ofs' = rest, last_token' = rest\<rparr>, err := ''expected 'depth =' line''\<rparr>)"
proof -
  have d: "pool_depth_value ps v = atol depth_string"
    using assms(3-5) by (simp add: pool_depth_value_def long_to_int_in_range)
  have 1: "ParsePool X (ps\<lparr>lexer' := \<lparr>ofs' = Word name # Kw NEWLINE # depth_line v @ rest, last_token' = lt\<rparr>\<rparr>) =
           (if atol depth_string < 0 then
              (False, ps\<lparr>lexer' := \<lparr>ofs' = rest, last_token' = Kw EQUALS # ValueText v # rest\<rparr>,
                         err := ''invalid pool depth''\<rparr>)
            else
              (True, ps\<lparr>lexer' := \<lparr>ofs' = rest, last_token' = rest\<rparr>,
                        state' := AddPool \<lparr>pool_name' = name, depth' = atol depth_string\<rparr> (state' ps)\<rparr>))"
    by (simp add: ParsePool_header [OF assms(2)] ParsePool_loop_line ParsePool_loop_end [OF assms(1)] d)
  have 2: "no_leading_digit depth_string \<longrightarrow>
            ParsePool X (ps\<lparr>lexer' := \<lparr>ofs' = Word name # Kw NEWLINE # depth_line v @ rest, last_token' = lt\<rparr>\<rparr>) =
              (True, ps\<lparr>lexer' := \<lparr>ofs' = rest, last_token' = rest\<rparr>,
                        state' := AddPool \<lparr>pool_name' = name, depth' = 0\<rparr> (state' ps)\<rparr>)"
    unfolding 1 by (simp add: atol_no_leading_digit)
  have 3: "ParsePool X (ps\<lparr>lexer' := \<lparr>ofs' = Word name # Kw NEWLINE # rest, last_token' = lt\<rparr>\<rparr>) =
           (False, ps\<lparr>lexer' := \<lparr>ofs' = rest, last_token' = rest\<rparr>, err := ''expected 'depth =' line''\<rparr>)"
    by (simp add: ParsePool_header [OF assms(2)] ParsePool_loop_end [OF assms(1)] LexerError_def)
  show ?thesis
    by (intro conjI) (rule 1, rule 2, rule 3)
qed

lemma example_atol:
  "atol ''abc'' = 0" "atol ''-7x'' = - 7" "atol ''1.5'' = 1" "atol ''12abc'' = 12" "atol [] = 0" "atol ''-x'' = 0"
  "no_leading_digit ''abc''" "no_leading_digit []" "no_leading_digit ''-x''"
  "\<not> no_leading_digit ''1.5''" "\<not> no_leading_digit ''12abc''" "\<not> no_leading_digit ''-7x''"
  by code_simp+

lemma example_evaluate_raw: "Evaluate (envs' (state' (example_parser []))) (env' (example_parser [])) [RAW s] = s"
  by (simp add: Evaluate_def)

theorem ParsePool_depth_amended_witness:
  "no_indent [] \<and> LookupPool (state' (example_parser [])) ''p'' = None
   \<and> atol ''abc'' = 0 \<and> no_leading_digit ''abc''
   \<and> ParsePool example_externs (example_parser [Word ''p'', Kw NEWLINE, Kw INDENT, Word ''depth'', Kw EQUALS, ValueText [RAW ''abc'']]) =
       (True, (example_parser [])\<lparr>state' := AddPool \<lparr>pool_name' = ''p'', depth' = 0\<rparr> example_state\<rparr>)
   \<and> atol ''-7x'' = - 7 \<and> \<not> no_leading_digit ''-7x''
   \<and> ParsePool example_externs (example_parser [Word ''p'', Kw NEWLINE, Kw INDENT, Word ''depth'', Kw EQUALS, ValueText [RAW ''-7x'']]) =
       (False, (example_parser [])\<lparr>lexer' := \<lparr>ofs' = [], last_token' = [Kw EQUALS, ValueText [RAW ''-7x'']]\<rparr>,
                  err := ''invalid pool depth''\<rparr>)
   \<and> atol ''12abc'' = 12 \<and> \<not> no_leading_digit ''12abc''
   \<and> ParsePool example_externs (example_parser [Word ''p'', Kw NEWLINE, Kw INDENT, Word ''depth'', Kw EQUALS, ValueText [RAW ''12abc'']]) =
       (True, (example_parser [])\<lparr>state' := AddPool \<lparr>pool_name' = ''p'', depth' = 12\<rparr> example_state\<rparr>)
   \<and> ParsePool example_externs (example_parser [Word ''p'', Kw NEWLINE]) =
       (False, (example_parser [])\<lparr>err := ''expected 'depth =' line''\<rparr>)"
proof -
  have n: "no_indent []" by (simp add: no_indent_def)
  note l = example_no_pool
  have p: "example_parser (x # xs) = (example_parser [])\<lparr>lexer' := \<lparr>ofs' = x # xs, last_token' = []\<rparr>\<rparr>" for x xs
    by (simp add: example_parser_def Start_def)
  have s: "state' (example_parser []) = example_state" by (simp add: example_parser_def)
  have e: "(example_parser [])\<lparr>lexer' := \<lparr>ofs' = [], last_token' = []\<rparr>\<rparr> = example_parser []"
    by (simp add: example_parser_def Start_def)
  have r: "- (2 ^ 31) \<le> atol ''abc''" "atol ''abc'' < 2 ^ 31" "- (2 ^ 31) \<le> atol ''-7x''" "atol ''-7x'' < 2 ^ 31"
    "- (2 ^ 31) \<le> atol ''12abc''" "atol ''12abc'' < 2 ^ 31"
    by (simp_all add: example_atol)
  note t1 = ParsePool_depth_amended [OF n l example_evaluate_raw [symmetric] r(1,2), of example_externs "[]"]
  note t2 = ParsePool_depth_amended [OF n l example_evaluate_raw [symmetric] r(3,4), of example_externs "[]"]
  note t3 = ParsePool_depth_amended [OF n l example_evaluate_raw [symmetric] r(5,6), of example_externs "[]"]
  have a: "ParsePool example_externs (example_parser [Word ''p'', Kw NEWLINE, Kw INDENT, Word ''depth'', Kw EQUALS, ValueText [RAW ''abc'']]) =
       (True, (example_parser [])\<lparr>state' := AddPool \<lparr>pool_name' = ''p'', depth' = 0\<rparr> example_state\<rparr>)"
    using t1 [THEN conjunct2, THEN conjunct1] example_atol(7) by (simp add: p depth_line_def s e)
  have b: "ParsePool example_externs (example_parser [Word ''p'', Kw NEWLINE, Kw INDENT, Word ''depth'', Kw EQUALS, ValueText [RAW ''-7x'']]) =
       (False, (example_parser [])\<lparr>lexer' := \<lparr>ofs' = [], last_token' = [Kw EQUALS, ValueText [RAW ''-7x'']]\<rparr>,
                  err := ''invalid pool depth''\<rparr>)"
    using t2 [THEN conjunct1] by (simp add: p depth_line_def s e example_atol)
  have c: "ParsePool example_externs (example_parser [Word ''p'', Kw NEWLINE, Kw INDENT, Word ''depth'', Kw EQUALS, ValueText [RAW ''12abc'']]) =
       (True, (example_parser [])\<lparr>state' := AddPool \<lparr>pool_name' = ''p'', depth' = 12\<rparr> example_state\<rparr>)"
    using t3 [THEN conjunct1] by (simp add: p depth_line_def s e example_atol)
  have d: "ParsePool example_externs (example_parser [Word ''p'', Kw NEWLINE]) =
       (False, (example_parser [])\<lparr>err := ''expected 'depth =' line''\<rparr>)"
    using t1 [THEN conjunct2, THEN conjunct2] by (simp add: p s e)
  show ?thesis
    by (intro conjI) (rule n l example_atol a b c d)+
qed

text \<open>
  Claim C5 as stated fails: the value \<^verbatim>\<open>abc\<close> is not a non-negative integer, and the
  pool statement \<^verbatim>\<open>pool p / depth = abc\<close> parses and registers the pool with depth 0.
\<close>

theorem ParsePool_depth_counterexample:
  "\<not> is_nonneg_integer ''abc''
   \<and> fst (ParsePool example_externs (example_parser [Word ''p'', Kw NEWLINE, Kw INDENT, Word ''depth'', Kw EQUALS, ValueText [RAW ''abc'']]))
   \<and> pools' (state' (snd (ParsePool example_externs (example_parser [Word ''p'', Kw NEWLINE, Kw INDENT, Word ''depth'', Kw EQUALS, ValueText [RAW ''abc'']])))) ''p''
       = Some \<lparr>pool_name' = ''p'', depth' = 0\<rparr>"
  by code_simp

theorem ParsePool_repeated_depth_witness:
  "no_indent [] \<and> LookupPool (state' (example_parser [])) ''p'' = None
   \<and> 0 \<le> pool_depth_value (example_parser []) [RAW ''4''] \<and> 0 \<le> pool_depth_value (example_parser []) [RAW ''2'']
   \<and> ParsePool example_externs (example_parser
        [Word ''p'', Kw NEWLINE, Kw INDENT, Word ''depth'', Kw EQUALS, ValueText [RAW ''4''],
         Kw INDENT, Word ''depth'', Kw EQUALS, ValueText [RAW ''2'']]) =
       (True, (example_parser [])\<lparr>state' := AddPool \<lparr>pool_name' = ''p'', depth' = 2\<rparr> example_state\<rparr>)
   \<and> pool_depth_value (example_parser []) [RAW ''-3''] < 0
   \<and> \<not> fst (ParsePool example_externs (example_parser
        [Word ''p'', Kw NEWLINE, Kw INDENT, Word ''depth'', Kw EQUALS, ValueText [RAW ''-3''],
         Kw INDENT, Word ''depth'', Kw EQUALS, ValueText [RAW ''2'']]))"
proof -
  have n: "no_indent []" by (simp add: no_indent_def)
  note l = example_no_pool
  have p: "example_parser input = (example_parser [])\<lparr>lexer' := \<lparr>ofs' = input, last_token' = []\<rparr>\<rparr>" for input
    by (simp add: example_parser_def Start_def)
  have s: "state' (example_parser []) = example_state" by (simp add: example_parser_def)
  have e: "(example_parser [])\<lparr>lexer' := \<lparr>ofs' = [], last_token' = []\<rparr>\<rparr> = example_parser []"
    by (simp add: example_parser_def Start_def)
  from ParsePool_repeated_depth [OF n l, of "[[RAW ''4'']]" "[RAW ''2'']" example_externs "[]"]
    ParsePool_repeated_depth [OF n l, of "[[RAW ''-3'']]" "[RAW ''2'']" example_externs "[]"]
  show ?thesis
    using n l by (simp add: example_depth_4 example_depth_2 example_depth_minus_3 p [of "_ # _"] depth_line_def s e split: prod.splits)
qed

subsection \<open>Rule statements\<close>

lemma ExpectToken_frame:
  "ExpectToken X t ps = (b, ps1) \<Longrightarrow> state' ps1 = state' ps \<and> env' ps1 = env' ps"
  by (auto simp: ExpectToken_def LexerError_def split: prod.splits if_splits)

lemma ParseLet_frame:
  "ParseLet X ps = (r, ps1) \<Longrightarrow> state' ps1 = state' ps \<and> env' ps1 = env' ps"
  unfolding ParseLet_def
  by (auto simp: LexerError_def split: prod.splits option.splits bool.splits sum.splits
      dest!: ExpectToken_frame)

lemma ParseRule_loop_cases:
  assumes "ParseRule_loop X ps rule = (r, ps1)"
  obtains (finished) lx where "PeekToken INDENT (lexer' ps) = (False, lx)" "r = Some rule" "ps1 = ps\<lparr>lexer' := lx\<rparr>"
  | (bad_let) lx where "PeekToken INDENT (lexer' ps) = (True, lx)" "ParseLet X (ps\<lparr>lexer' := lx\<rparr>) = (None, ps1)" "r = None"
  | (bad_key) lx key val ps2 where "PeekToken INDENT (lexer' ps) = (True, lx)"
      "ParseLet X (ps\<lparr>lexer' := lx\<rparr>) = (Some (key, val), ps2)" "\<not> IsReservedBinding key" "r = None"
      "ps1 = ps2\<lparr>err := ''unexpected variable '' @ [CHR 0x27] @ key @ [CHR 0x27]\<rparr>"
  | (step) lx key val ps2 where "PeekToken INDENT (lexer' ps) = (True, lx)"
      "ParseLet X (ps\<lparr>lexer' := lx\<rparr>) = (Some (key, val), ps2)" "IsReservedBinding key"
      "ParseRule_loop X ps2 (Rule_AddBinding key val rule) = (r, ps1)"
proof -
  note eq = assms [unfolded ParseRule_loop.simps [of X ps rule]]
  show thesis
    using eq that
    by (auto simp: LexerError_def split: prod.splits bool.splits option.splits if_splits)
qed

lemma ParseRule_loop_frame:
  "ParseRule_loop X ps rule = (r, ps1) \<Longrightarrow> state' ps1 = state' ps \<and> env' ps1 = env' ps"
proof (induction X ps rule rule: ParseRule_loop.induct)
  case (1 X ps rule)
  from "1.prems" show ?case
  proof (cases rule: ParseRule_loop_cases)
    case (finished lx)
    then show ?thesis by simp
  next
    case (bad_let lx)
    then show ?thesis using ParseLet_frame [of X "ps\<lparr>lexer' := lx\<rparr>" None ps1] by simp
  next
    case (bad_key lx key val ps2)
    then show ?thesis using ParseLet_frame [of X "ps\<lparr>lexer' := lx\<rparr>" _ ps2] by simp
  next
    case (step lx key val ps2)
    from "1.IH" [OF step(1) [symmetric] refl step(2) [symmetric] refl refl step(3) step(4)]
      ParseLet_frame [OF step(2)]
    show ?thesis by simp
  qed
qed

lemma ParseRule_loop_rule:
  "ParseRule_loop X ps rule = (Some rule1, ps1) \<Longrightarrow>
     name' rule1 = name' rule \<and>
     ((\<forall>key\<in>dom (rule_bindings' rule). IsReservedBinding key) \<longrightarrow>
      (\<forall>key\<in>dom (rule_bindings' rule1). IsReservedBinding key))"
proof (induction X ps rule rule: ParseRule_loop.induct)
  case (1 X ps rule)
  from "1.prems" show ?case
  proof (cases rule: ParseRule_loop_cases)
    case (finished lx)
    then show ?thesis by simp
  next
    case (bad_let lx)
    then show ?thesis by simp
  next
    case (bad_key lx key val ps2)
    then show ?thesis by simp
  next
    case (step lx key val ps2)
    from "1.IH" [OF step(1) [symmetric] refl step(2) [symmetric] refl refl step(3) step(4)] step(3)
    show ?thesis by (auto simp: Rule_AddBinding_def split: if_splits)
  qed
qed

lemma Rule_index_reserved:
  "Rule_index key rule = (v, rule1) \<Longrightarrow> IsReservedBinding key \<Longrightarrow>
     \<forall>k\<in>dom (rule_bindings' rule). IsReservedBinding k \<Longrightarrow>
     name' rule1 = name' rule \<and> rule_bindings' rule1 key = Some v \<and>
     (\<forall>k. k \<noteq> key \<longrightarrow> rule_bindings' rule1 k = rule_bindings' rule k) \<and>
     (\<forall>k\<in>dom (rule_bindings' rule1). IsReservedBinding k)"
  by (auto simp: Rule_index_def Rule_AddBinding_def split: option.splits if_splits)

text \<open>
  Claim C9. Rule registration is atomic: when \<^verbatim>\<open>ParseRule\<close> returns false, for whatever
  reason, the store (and with it the rule map of every scope) is as it was; when it
  returns true, exactly one rule has been added to the current scope, its name was
  free there, all its bindings are reserved names, its \<^verbatim>\<open>command\<close> is not empty, and
  \<^verbatim>\<open>rspfile\<close> and \<^verbatim>\<open>rspfile_content\<close> are both empty or both given.
\<close>

theorem ParseRule_registers_atomically:
  assumes "ParseRule X ps = (b, ps1)"
  shows "if b then
           \<exists>rule command.
             state' ps1 = AddRule (env' ps) rule (state' ps) \<and>
             LookupRuleCurrentScope (envs' (state' ps)) (env' ps) (name' rule) = None \<and>
             rule_bindings' rule ''command'' = Some command \<and> command \<noteq> [] \<and>
             (rule_bindings' rule ''rspfile'' = Some []) = (rule_bindings' rule ''rspfile_content'' = Some []) \<and>
             (\<forall>key\<in>dom (rule_bindings' rule). IsReservedBinding key)
         else state' ps1 = state' ps"
proof -
  obtain i lx where ri: "ReadIdent (lexer' ps) = (i, lx)" by force
  show ?thesis
  proof (cases i)
    case None
    with ri assms show ?thesis by (auto simp: ParseRule_def LexerError_def)
  next
    case (Some name)
    obtain b1 ps2 where et: "ExpectToken X NEWLINE (ps\<lparr>lexer' := lx\<rparr>) = (b1, ps2)" by force
    from ExpectToken_frame [OF et] have f2: "state' ps2 = state' ps" "env' ps2 = env' ps" by simp_all
    show ?thesis
    proof (cases "b1 \<and> LookupRuleCurrentScope (envs' (state' ps2)) (env' ps2) name = None")
      case False
      with ri Some et assms f2 show ?thesis
        by (auto simp: ParseRule_def LexerError_def split: if_splits bool.splits)
    next
      case True
      obtain r ps3 where lp: "ParseRule_loop X ps2 \<lparr>name' = name, rule_bindings' = Map.empty\<rparr> = (r, ps3)"
        by force
      from ParseRule_loop_frame [OF lp] f2 have f3: "state' ps3 = state' ps" "env' ps3 = env' ps" by simp_all
      show ?thesis
      proof (cases r)
        case None
        with ri Some et True lp assms f3 show ?thesis
          by (auto simp: ParseRule_def)
      next
        case (Some rule)
        with lp ParseRule_loop_rule [of X ps2 "\<lparr>name' = name, rule_bindings' = Map.empty\<rparr>" rule ps3]
        have r0: "name' rule = name" "\<forall>key\<in>dom (rule_bindings' rule). IsReservedBinding key" by simp_all
        obtain v1 rule1 where i1: "Rule_index ''rspfile'' rule = (v1, rule1)" by force
        obtain v2 rule2 where i2: "Rule_index ''rspfile_content'' rule1 = (v2, rule2)" by force
        obtain v3 rule3 where i3: "Rule_index ''command'' rule2 = (v3, rule3)" by force
        have res: "IsReservedBinding ''rspfile''" "IsReservedBinding ''rspfile_content''" "IsReservedBinding ''command''"
          by (simp_all add: IsReservedBinding_def)
        from Rule_index_reserved [OF i1 res(1) r0(2)] have p1:
          "name' rule1 = name' rule" "rule_bindings' rule1 ''rspfile'' = Some v1"
          "\<forall>k\<in>dom (rule_bindings' rule1). IsReservedBinding k" by simp_all
        from Rule_index_reserved [OF i2 res(2) p1(3)] have p2:
          "name' rule2 = name' rule1" "rule_bindings' rule2 ''rspfile_content'' = Some v2"
          "rule_bindings' rule2 ''rspfile'' = rule_bindings' rule1 ''rspfile''"
          "\<forall>k\<in>dom (rule_bindings' rule2). IsReservedBinding k" by simp_all
        from Rule_index_reserved [OF i3 res(3) p2(4)] have p3:
          "name' rule3 = name' rule2" "rule_bindings' rule3 ''command'' = Some v3"
          "rule_bindings' rule3 ''rspfile'' = rule_bindings' rule2 ''rspfile''"
          "rule_bindings' rule3 ''rspfile_content'' = rule_bindings' rule2 ''rspfile_content''"
          "\<forall>k\<in>dom (rule_bindings' rule3). IsReservedBinding k" by simp_all
        have eq: "ParseRule X ps =
            (if (v1 = []) \<noteq> (v2 = []) then LexerError ''rspfile and rspfile_content need to be both specified'' ps3
             else if v3 = [] then LexerError ''expected 'command =' line'' ps3
             else (True, ps3\<lparr>state' := AddRule (env' ps3) rule3 (state' ps3)\<rparr>))"
          using ri \<open>i = Some name\<close> et True lp Some i1 i2 i3
          by (simp add: ParseRule_def)
        show ?thesis
        proof (cases "(v1 = []) = (v2 = []) \<and> v3 \<noteq> []")
          case False
          with eq assms f3 show ?thesis by (auto simp: LexerError_def split: if_splits)
        next
          case ok: True
          with eq assms have b: "b" and ps1: "ps1 = ps3\<lparr>state' := AddRule (env' ps3) rule3 (state' ps3)\<rparr>"
            by (auto split: if_splits)
          have "state' ps1 = AddRule (env' ps) rule3 (state' ps)" using ps1 f3 by simp
          moreover have "LookupRuleCurrentScope (envs' (state' ps)) (env' ps) (name' rule3) = None"
            using True f2 p1 p2 p3 r0 by simp
          moreover have "rule_bindings' rule3 ''command'' = Some v3" "v3 \<noteq> []" using p3 ok by simp_all
          moreover have "(rule_bindings' rule3 ''rspfile'' = Some []) = (rule_bindings' rule3 ''rspfile_content'' = Some [])"
            using p1 p2 p3 ok by auto
          ultimately show ?thesis using b p3(5) by auto
        qed
      qed
    qed
  qed
qed

lemma example_rule_fails: "\<not> fst (ParseRule example_externs (example_parser rule_statement_no_command))"
  by code_simp

lemma example_rule_ok: "fst (ParseRule example_externs (example_parser rule_statement_ok))"
  by code_simp

theorem ParseRule_registers_atomically_witness:
  "\<not> fst (ParseRule example_externs (example_parser rule_statement_no_command))
   \<and> state' (snd (ParseRule example_externs (example_parser rule_statement_no_command))) = example_state
   \<and> fst (ParseRule example_externs (example_parser rule_statement_ok))
   \<and> (\<exists>rule. state' (snd (ParseRule example_externs (example_parser rule_statement_ok))) =
          AddRule 0 rule example_state)"
proof -
  have s: "state' (example_parser input) = example_state" "env' (example_parser input) = 0" for input
    by (simp_all add: example_parser_def)
  from ParseRule_registers_atomically [OF surjective_pairing,
      of example_externs "example_parser rule_statement_no_command"]
    example_rule_fails
  have 1: "state' (snd (ParseRule example_externs (example_parser rule_statement_no_command))) = example_state"
    by (simp add: s)
  from ParseRule_registers_atomically [OF surjective_pairing,
      of example_externs "example_parser rule_statement_ok"]
    example_rule_ok
  have 2: "\<exists>rule. state' (snd (ParseRule example_externs (example_parser rule_statement_ok))) =
          AddRule 0 rule example_state"
    by (auto simp: s)
  from 1 2 example_rule_fails example_rule_ok show ?thesis by simp
qed

subsection \<open>The version check, build statements without outputs, failed path reads\<close>

text \<open>
  Claim C8. A top-level binding of \<^verbatim>\<open>ninja_required_version\<close> has its evaluated value
  checked at once: when the check fails, the parse ends there with the fatal message,
  the value has not been stored in the scope (the store is as it was) and the rest
  of the input, whatever it holds, is left unread; when the check passes, the value
  is stored and the loop goes on.
\<close>

theorem Parse_required_version_first:
  assumes "CheckNinjaVersion X (Evaluate (envs' (state' ps)) (env' ps) v) = r"
  shows "Parse_loop (Suc n) X
           (ps\<lparr>lexer' := \<lparr>ofs' = Word ''ninja_required_version'' # Kw EQUALS # ValueText v # rest,
                            last_token' = lt\<rparr>\<rparr>) =
         (case r of
            Some fatal \<Rightarrow>
              Some (Fatal fatal,
                    ps\<lparr>lexer' := \<lparr>ofs' = rest, last_token' = Kw EQUALS # ValueText v # rest\<rparr>\<rparr>)
          | None \<Rightarrow>
              Parse_loop n X
                (ps\<lparr>lexer' := \<lparr>ofs' = rest, last_token' = Kw EQUALS # ValueText v # rest\<rparr>,
                    state' := AddBinding (env' ps) ''ninja_required_version''
                                (Evaluate (envs' (state' ps)) (env' ps) v) (state' ps)\<rparr>))"
  using assms
  by (simp add: ReadToken_def UnreadToken_def ParseLet_def ReadIdent_def ExpectToken_def
      ReadVarValue_def Let_def split: option.splits)

lemma example_version_check:
  "CheckNinjaVersion example_externs
     (Evaluate (envs' (state' (example_parser []))) (env' (example_parser [])) [RAW ''99'']) =
   Some ''ninja version incompatible''"
  by code_simp

theorem Parse_required_version_first_witness:
  "CheckNinjaVersion example_externs
     (Evaluate (envs' (state' (example_parser []))) (env' (example_parser [])) [RAW ''99'']) =
   Some ''ninja version incompatible''
   \<and> Parse 1 example_externs
       [Word ''ninja_required_version'', Kw EQUALS, ValueText [RAW ''99''], Malformed ''bad $-escape'']
       (example_parser []) =
     Some (Fatal ''ninja version incompatible'',
           (example_parser [])\<lparr>lexer' :=
              \<lparr>ofs' = [Malformed ''bad $-escape''],
               last_token' = [Kw EQUALS, ValueText [RAW ''99''], Malformed ''bad $-escape'']\<rparr>\<rparr>)"
  using Parse_required_version_first [OF example_version_check, of 0 "[Malformed ''bad $-escape'']" "[]"]
  by (simp add: Parse_def Start_def example_version_check)

text \<open>
  Claim C2, as amended. A build statement must declare at least one output, explicit
  or implicit: one that declares none at all fails with \<^verbatim>\<open>expected path\<close>, with or
  without a \<open>PIPE\<close>; one with no explicit output and at least one implicit output
  after the \<open>PIPE\<close> passes this check, and its outputs are the implicit ones.
\<close>

theorem ParseEdge_no_output:
  assumes "ReadPaths (lexer' ps) [] 0 = (Inr ([], n), lx)"
  shows "(PeekToken PIPE lx = (False, lx1) \<longrightarrow>
            ParseEdge X ps = (False, ps\<lparr>lexer' := lx1, err := ''expected path''\<rparr>))
       \<and> (PeekToken PIPE lx = (True, lx2) \<and> ReadPaths lx2 [] 0 = (Inr (outs, implicit_outs), lx1) \<longrightarrow>
            (if outs = [] then ParseEdge X ps = (False, ps\<lparr>lexer' := lx1, err := ''expected path''\<rparr>)
             else ParseEdge_outs ps = Inr (outs, implicit_outs, ps\<lparr>lexer' := lx1\<rparr>)))"
  using assms
  by (auto simp: ParseEdge_def ParseEdge_outs_def LexerError_def)

text \<open>
  Claim C2 as stated fails: \<^verbatim>\<open>build | imp: cat\<close> has no explicit output, and it parses;
  the edge has the one output \<^verbatim>\<open>imp\<close>, counted as implicit.
\<close>

theorem ParseEdge_no_explicit_output_counterexample:
  "fst (ReadPaths (Start build_only_implicit) [] 0) = Inr ([], 0)
   \<and> fst (ParseEdge example_externs (example_parser build_only_implicit))
   \<and> map outputs' (edges' (state' (snd (ParseEdge example_externs (example_parser build_only_implicit)))))
       = [[''imp'']]
   \<and> map implicit_outs' (edges' (state' (snd (ParseEdge example_externs (example_parser build_only_implicit)))))
       = [1]"
  by code_simp

lemma example_ReadPaths_colon:
  "ReadPaths (lexer' (example_parser [Kw COLON, Word ''cat'', Kw NEWLINE])) [] 0 =
     (Inr ([], 0), Start [Kw COLON, Word ''cat'', Kw NEWLINE])"
  by code_simp

lemma example_ReadPaths_pipe:
  "ReadPaths (lexer' (example_parser build_only_implicit)) [] 0 = (Inr ([], 0), Start build_only_implicit)"
  by code_simp

lemma example_PeekToken_colon:
  "PeekToken PIPE (Start [Kw COLON, Word ''cat'', Kw NEWLINE]) =
     (False, \<lparr>ofs' = [Kw COLON, Word ''cat'', Kw NEWLINE], last_token' = [Kw COLON, Word ''cat'', Kw NEWLINE]\<rparr>)"
  by code_simp

lemma example_PeekToken_pipe:
  "PeekToken PIPE (Start build_only_implicit) =
     (True, \<lparr>ofs' = [Word ''imp'', Kw COLON, Word ''cat'', Kw NEWLINE], last_token' = build_only_implicit\<rparr>)"
  by code_simp

lemma example_ReadPaths_implicit:
  "ReadPaths \<lparr>ofs' = [Word ''imp'', Kw COLON, Word ''cat'', Kw NEWLINE], last_token' = build_only_implicit\<rparr> [] 0 =
     (Inr ([[RAW ''imp'']], 1), \<lparr>ofs' = [Kw COLON, Word ''cat'', Kw NEWLINE], last_token' = build_only_implicit\<rparr>)"
  by code_simp

theorem ParseEdge_no_output_witness:
  "ReadPaths (lexer' (example_parser [Kw COLON, Word ''cat'', Kw NEWLINE])) [] 0 =
     (Inr ([], 0), Start [Kw COLON, Word ''cat'', Kw NEWLINE])
   \<and> ParseEdge example_externs (example_parser [Kw COLON, Word ''cat'', Kw NEWLINE]) =
       (False, (example_parser [])\<lparr>lexer' := \<lparr>ofs' = [Kw COLON, Word ''cat'', Kw NEWLINE],
                  last_token' = [Kw COLON, Word ''cat'', Kw NEWLINE]\<rparr>, err := ''expected path''\<rparr>)
   \<and> ParseEdge_outs (example_parser build_only_implicit) =
       Inr ([[RAW ''imp'']], 1,
            (example_parser [])\<lparr>lexer' := \<lparr>ofs' = [Kw COLON, Word ''cat'', Kw NEWLINE],
               last_token' = build_only_implicit\<rparr>\<rparr>)"
proof -
  have p: "(example_parser (x # xs))\<lparr>lexer' := lx\<rparr> = (example_parser [])\<lparr>lexer' := lx\<rparr>" for x xs lx
    by (simp add: example_parser_def)
  from ParseEdge_no_output [OF example_ReadPaths_colon, of _ example_externs]
    example_PeekToken_colon
  have 1: "ParseEdge example_externs (example_parser [Kw COLON, Word ''cat'', Kw NEWLINE]) =
       (False, (example_parser [])\<lparr>lexer' := \<lparr>ofs' = [Kw COLON, Word ''cat'', Kw NEWLINE],
                  last_token' = [Kw COLON, Word ''cat'', Kw NEWLINE]\<rparr>, err := ''expected path''\<rparr>)"
    by (simp add: p)
  have q: "example_parser build_only_implicit\<lparr>lexer' := lx\<rparr> = (example_parser [])\<lparr>lexer' := lx\<rparr>" for lx
    by (simp add: example_parser_def)
  from ParseEdge_no_output [OF example_ReadPaths_pipe, of _ example_externs]
    example_PeekToken_pipe example_ReadPaths_implicit
  have 2: "ParseEdge_outs (example_parser build_only_implicit) =
       Inr ([[RAW ''imp'']], 1,
            (example_parser [])\<lparr>lexer' := \<lparr>ofs' = [Kw COLON, Word ''cat'', Kw NEWLINE],
               last_token' = build_only_implicit\<rparr>\<rparr>)"
    by (simp add: q)
  from 1 2 example_ReadPaths_colon show ?thesis by simp
qed

text \<open>
  Claim C3 meets a defect of the code. When \<open>ReadPath\<close> fails in the implicit outputs
  or in the implicit inputs, \<^verbatim>\<open>ParseEdge\<close> executes \<^verbatim>\<open>return err;\<close> and so returns true,
  with the message stored and no edge made; the loop of \<^verbatim>\<open>Parse\<close> goes on. For the
  input \<^verbatim>\<open>build a |\<close> cut off by the end of the input, \<^verbatim>\<open>Parse\<close> returns true.
\<close>

theorem ParseEdge_returns_err_pointer:
  "ParseEdge example_externs
     (example_parser [Word ''a'', Kw PIPE, Malformed ''bad $-escape (literal $ must be written as $$)'',
                      Kw COLON, Word ''cat'', Kw NEWLINE]) =
     (True, (example_parser [])\<lparr>lexer' :=
        \<lparr>ofs' = [Malformed ''bad $-escape (literal $ must be written as $$)'', Kw COLON, Word ''cat'', Kw NEWLINE],
         last_token' = [Malformed ''bad $-escape (literal $ must be written as $$)'', Kw COLON, Word ''cat'', Kw NEWLINE]\<rparr>,
        err := ''bad $-escape (literal $ must be written as $$)''\<rparr>)
   \<and> ParseEdge example_externs
     (example_parser [Word ''a'', Kw COLON, Word ''cat'', Word ''b'', Kw PIPE, Malformed ''bad $-escape (literal $ must be written as $$)'',
                      Kw NEWLINE]) =
     (True, (example_parser [])\<lparr>lexer' :=
        \<lparr>ofs' = [Malformed ''bad $-escape (literal $ must be written as $$)'', Kw NEWLINE],
         last_token' = [Malformed ''bad $-escape (literal $ must be written as $$)'', Kw NEWLINE]\<rparr>,
        err := ''bad $-escape (literal $ must be written as $$)''\<rparr>)
   \<and> Parse 2 example_externs build_cut_off (example_parser []) =
     Some (Return True,
           (example_parser [])\<lparr>lexer' := \<lparr>ofs' = [], last_token' = []\<rparr>, err := ''unexpected EOF''\<rparr>)"
  apply (intro conjI)
    apply (simp add: ParseEdge_def ParseEdge_outs_def ReadPaths.simps ReadPath_def PeekToken_def ReadToken_def
      example_parser_def Start_def)
   apply (simp add: ParseEdge_def ParseEdge_outs_def ParseEdge_ins_def ReadPaths.simps ReadPath_def
      PeekToken_def ReadToken_def UnreadToken_def ExpectToken_def ReadIdent_def LookupRule.simps
      example_parser_def example_state_def Start_def)
  apply (simp add: numeral_2_eq_2 Parse_def build_cut_off_def ParseEdge_def ParseEdge_outs_def ReadPaths.simps ReadPath_def
      PeekToken_def ReadToken_def example_parser_def Start_def)
  done

subsection \<open>The filter of self-referencing edges\<close>

text \<open>
  Claim C4. Under the policy \<open>kPhonyCycleActionWarn\<close>, for an edge with a single
  output that is also among its inputs, whatever its rule, the filter removes every
  occurrence of the output from the inputs, keeps the other inputs in their order,
  and prints one warning unless \<open>quiet'\<close> is set.
\<close>

theorem ParseEdge_phonycycle_strips:
  assumes "phony_cycle_action' (options' ps) = kPhonyCycleActionWarn"
    and "eid < length (edges' (state' ps))"
    and "outputs' (edges' (state' ps) ! eid) = [out]"
    and "out \<in> set (inputs' (edges' (state' ps) ! eid))"
  shows "ParseEdge_phonycycle eid ps =
           ps\<lparr>state' := upd_edge eid (\<lambda>edge. edge\<lparr>inputs' := removeAll out (inputs' edge)\<rparr>) (state' ps),
              log := (if quiet' ps then log ps
                      else log ps @ [''phony target '' @ [CHR 0x27] @ out @ [CHR 0x27] @
                                     '' names itself as an input; ignoring [-w phonycycle=warn]''])\<rparr>
       \<and> inputs' (edges' (state' (ParseEdge_phonycycle eid ps)) ! eid) =
           filter (\<lambda>i. i \<noteq> out) (inputs' (edges' (state' ps) ! eid))
       \<and> out \<notin> set (inputs' (edges' (state' (ParseEdge_phonycycle eid ps)) ! eid))
       \<and> rule' (edges' (state' (ParseEdge_phonycycle eid ps)) ! eid) = rule' (edges' (state' ps) ! eid)"
proof -
  have eq: "ParseEdge_phonycycle eid ps =
           ps\<lparr>state' := upd_edge eid (\<lambda>edge. edge\<lparr>inputs' := removeAll out (inputs' edge)\<rparr>) (state' ps),
              log := (if quiet' ps then log ps
                      else log ps @ [''phony target '' @ [CHR 0x27] @ out @ [CHR 0x27] @
                                     '' names itself as an input; ignoring [-w phonycycle=warn]''])\<rparr>"
    using assms
    by (simp add: ParseEdge_phonycycle_def maybe_phonycycle_diagnostic_def Warning_def Let_def)
  have rm: "removeAll out xs = filter (\<lambda>i. i \<noteq> out) xs" for xs :: "string list"
    by (induction xs) auto
  from assms(2) show ?thesis
    unfolding eq by (simp add: upd_edge_def rm)
qed

theorem ParseEdge_phonycycle_strips_witness:
  "phony_cycle_action' (options' example_self_parser) = kPhonyCycleActionWarn
   \<and> 0 < length (edges' (state' example_self_parser))
   \<and> outputs' (edges' (state' example_self_parser) ! 0) = [''a'']
   \<and> ''a'' \<in> set (inputs' (edges' (state' example_self_parser) ! 0))
   \<and> name' (rule' (edges' (state' example_self_parser) ! 0)) = ''cat''
   \<and> inputs' (edges' (state' (ParseEdge_phonycycle 0 example_self_parser)) ! 0) = [''b'', ''c'']
   \<and> log (ParseEdge_phonycycle 0 example_self_parser) =
       [''phony target 'a' names itself as an input; ignoring [-w phonycycle=warn]'']
   \<and> log (ParseEdge_phonycycle 0 (example_self_parser\<lparr>quiet' := True\<rparr>)) = []
   \<and> fst (ParseEdge example_externs (example_parser build_self_input))
   \<and> map inputs' (edges' (state' (snd (ParseEdge example_externs (example_parser build_self_input))))) = [[''b'']]
   \<and> log (snd (ParseEdge example_externs (example_parser build_self_input))) =
       [''phony target 'a' names itself as an input; ignoring [-w phonycycle=warn]'']"
proof -
  have h: "phony_cycle_action' (options' example_self_parser) = kPhonyCycleActionWarn"
    "0 < length (edges' (state' example_self_parser))"
    "outputs' (edges' (state' example_self_parser) ! 0) = [''a'']"
    "''a'' \<in> set (inputs' (edges' (state' example_self_parser) ! 0))"
    "name' (rule' (edges' (state' example_self_parser) ! 0)) = ''cat''"
    "inputs' (edges' (state' example_self_parser) ! 0) = [''b'', ''a'', ''c'', ''a'']"
    "log example_self_parser = []" "\<not> quiet' example_self_parser"
    by (simp_all add: example_self_parser_def example_parser_def example_state_def example_self_edge_def)
  have hq: "phony_cycle_action' (options' (example_self_parser\<lparr>quiet' := True\<rparr>)) = kPhonyCycleActionWarn"
    "0 < length (edges' (state' (example_self_parser\<lparr>quiet' := True\<rparr>)))"
    "outputs' (edges' (state' (example_self_parser\<lparr>quiet' := True\<rparr>)) ! 0) = [''a'']"
    "''a'' \<in> set (inputs' (edges' (state' (example_self_parser\<lparr>quiet' := True\<rparr>)) ! 0))"
    using h by simp_all
  have e: "fst (ParseEdge example_externs (example_parser build_self_input))
   \<and> map inputs' (edges' (state' (snd (ParseEdge example_externs (example_parser build_self_input))))) = [[''b'']]
   \<and> log (snd (ParseEdge example_externs (example_parser build_self_input))) =
       [''phony target 'a' names itself as an input; ignoring [-w phonycycle=warn]'']"
    by code_simp
  note t = ParseEdge_phonycycle_strips [OF h(1-4)]
  note tq = ParseEdge_phonycycle_strips [OF hq]
  have a: "inputs' (edges' (state' (ParseEdge_phonycycle 0 example_self_parser)) ! 0) = [''b'', ''c'']"
    using t [THEN conjunct2, THEN conjunct1] h(6) by simp
  have b: "log (ParseEdge_phonycycle 0 example_self_parser) =
       [''phony target 'a' names itself as an input; ignoring [-w phonycycle=warn]'']"
    unfolding t [THEN conjunct1] using h(7,8) by simp
  have c: "log (ParseEdge_phonycycle 0 (example_self_parser\<lparr>quiet' := True\<rparr>)) = []"
    unfolding tq [THEN conjunct1] using h(7) by simp
  from a b c h e show ?thesis by simp
qed

subsection \<open>The dyndep binding\<close>

lemma AddOut_edges_length: "AddOut eid path slash_bits st = (b, st1) \<Longrightarrow> length (edges' st1) = length (edges' st)"
  by (auto simp: AddOut_def GetNode_def upd_edge_def upd_node_def Let_def split: option.splits if_splits)

lemma AddIn_edges_length: "length (edges' (AddIn eid path slash_bits st)) = length (edges' st)"
  by (auto simp: AddIn_def GetNode_def upd_edge_def upd_node_def Let_def split: option.splits)

lemma add_outs_length:
  "ParseEdge_add_outs X env eid outs k ps = Inr (k', ps') \<Longrightarrow>
     length (edges' (state' ps')) = length (edges' (state' ps))"
proof (induction outs arbitrary: k ps)
  case Nil
  then show ?case by simp
next
  case (Cons out outs)
  obtain c where c: "CanonicalizePath X (Evaluate (envs' (state' ps)) env out) = c" by simp
  show ?case
  proof (cases c)
    case (Inl e)
    with Cons.prems c show ?thesis by simp
  next
    case (Inr pq)
    obtain path slash_bits where pq: "pq = (path, slash_bits)" by force
    obtain b st where a: "AddOut eid path slash_bits (state' ps) = (b, st)" by force
    from Cons.prems c Inr pq a obtain k1 ps1 where
      r: "ParseEdge_add_outs X env eid outs k1 ps1 = Inr (k', ps')" and s: "state' ps1 = st"
      by (cases b) (auto simp: Warning_def split: if_splits)
    from Cons.IH [OF r] s AddOut_edges_length [OF a] show ?thesis by simp
  qed
qed

lemma add_ins_length:
  "ParseEdge_add_ins X env eid ins ps = Inr ps' \<Longrightarrow>
     length (edges' (state' ps')) = length (edges' (state' ps))"
proof (induction ins arbitrary: ps)
  case Nil
  then show ?case by simp
next
  case (Cons i ins)
  obtain c where c: "CanonicalizePath X (Evaluate (envs' (state' ps)) env i) = c" by simp
  show ?case
  proof (cases c)
    case (Inl e)
    with Cons.prems c show ?thesis by simp
  next
    case (Inr pq)
    obtain path slash_bits where pq: "pq = (path, slash_bits)" by force
    from Cons.prems c Inr pq
    have "ParseEdge_add_ins X env eid ins (ps\<lparr>state' := AddIn eid path slash_bits (state' ps)\<rparr>) = Inr ps'"
      by simp
    from Cons.IH [OF this] show ?thesis by (simp add: AddIn_edges_length)
  qed
qed

lemma phonycycle_length:
  "length (edges' (state' (ParseEdge_phonycycle eid ps))) = length (edges' (state' ps))"
  by (simp add: ParseEdge_phonycycle_def Let_def Warning_def upd_edge_def)

lemma link_length:
  assumes "ParseEdge_link X outs k ins implicit order_only env eid ps = Inr ps'"
  shows "length (edges' (state' ps')) = length (edges' (state' ps))"
proof -
  obtain r where r: "ParseEdge_add_outs X env eid outs k ps = r" by simp
  show ?thesis
  proof (cases r)
    case (Inl a)
    with assms r show ?thesis by (simp add: ParseEdge_link_def)
  next
    case (Inr kp)
    obtain k1 ps2 where kp: "kp = (k1, ps2)" by force
    from r Inr kp have o: "ParseEdge_add_outs X env eid outs k ps = Inr (k1, ps2)" by simp
    obtain q where q: "ParseEdge_add_ins X env eid ins
        (ps2\<lparr>state' := upd_edge eid (\<lambda>edge. edge\<lparr>implicit_outs' := k1\<rparr>) (state' ps2)\<rparr>) = q" by simp
    show ?thesis
    proof (cases q)
      case (Inl a)
      with assms o q show ?thesis by (simp add: ParseEdge_link_def split: if_splits)
    next
      case (Inr ps3)
      with q have i: "ParseEdge_add_ins X env eid ins
        (ps2\<lparr>state' := upd_edge eid (\<lambda>edge. edge\<lparr>implicit_outs' := k1\<rparr>) (state' ps2)\<rparr>) = Inr ps3" by simp
      from assms o i have "ps' = ParseEdge_phonycycle eid
          (ps3\<lparr>state' := upd_edge eid (\<lambda>edge. edge\<lparr>implicit_deps' := implicit,
             order_only_deps' := order_only\<rparr>) (state' ps3)\<rparr>)"
        by (simp add: ParseEdge_link_def Let_def split: if_splits)
      then have "length (edges' (state' ps')) = length (edges' (state' ps3))"
        by (simp add: phonycycle_length upd_edge_def)
      with add_ins_length [OF i] add_outs_length [OF o] show ?thesis by (simp add: upd_edge_def)
    qed
  qed
qed

lemma new_edge_index:
  "ParseEdge_new_edge X rule env ps0 = Inr (eid, ps) \<Longrightarrow> eid < length (edges' (state' ps))"
  by (auto simp: ParseEdge_new_edge_def AddEdge_def upd_edge_def LexerError_def Let_def
      split: if_splits option.splits)

lemma ParseEdge_dyndep_result:
  assumes "GetUnescapedDyndep X (state' ps) eid = dyndep" and "dyndep \<noteq> []"
    and "CanonicalizePath X (AsString (envs' (state' ps)) env @ dyndep) = Inr (path, slash_bits)"
    and "eid < length (edges' (state' ps))"
  shows "paths' (state' (snd (ParseEdge_dyndep X env eid ps))) path =
           Some ((case paths' (state' ps) path of
                    None \<Rightarrow> \<lparr>path' = path, slash_bits' = slash_bits, node_env' = env, in_edge' = None,
                              out_edges' = [], dyndep_pending' = False\<rparr>
                  | Some node \<Rightarrow> node)\<lparr>dyndep_pending' := True\<rparr>)
       \<and> dyndep' (edges' (state' (snd (ParseEdge_dyndep X env eid ps))) ! eid) = Some path
       \<and> fst (ParseEdge_dyndep X env eid ps) = (path \<in> set (inputs' (edges' (state' ps) ! eid)))
       \<and> (path \<notin> set (inputs' (edges' (state' ps) ! eid)) \<longrightarrow>
            err (snd (ParseEdge_dyndep X env eid ps)) =
              ''dyndep '' @ [CHR 0x27] @ path @ [CHR 0x27] @ '' is not an input'')"
  using assms
  by (auto simp: ParseEdge_dyndep_def ApplyChdir_def Let_def GetNode_def upd_edge_def upd_node_def LexerError_def
      split: option.splits)

text \<open>
  Claim C6, as amended. For a build statement that reaches the dyndep step (it has
  kept at least one output and has passed the checks of lines 308 to 389) with a
  non-empty dyndep binding: the binding is prefixed with the directory of the scope
  of the edge and canonicalized; the node of the resulting path is interned
  (created, or the one already there), marked as \<open>dyndep_pending'\<close> and stored as the
  \<open>dyndep'\<close> of the edge; and the statement parses exactly when that node is among
  the inputs of the edge, with the message \<^verbatim>\<open>dyndep '...' is not an input\<close> otherwise.
\<close>

theorem ParseEdge_dyndep_amended:
  assumes "ParseEdge_outs ps0 = Inr (outs, implicit_outs, ps1)"
    and "ParseEdge_ins X ps1 = Inr (rule, ins, implicit, order_only, ps2)"
    and "ParseEdge_bindings X ps2 = Inr (env, ps3)"
    and "ParseEdge_new_edge X rule env ps3 = Inr (eid, ps4)"
    and "ParseEdge_link X outs implicit_outs ins implicit order_only env eid ps4 = Inr ps"
    and "GetUnescapedDyndep X (state' ps) eid = dyndep" and "dyndep \<noteq> []"
    and "CanonicalizePath X (AsString (envs' (state' ps)) env @ dyndep) = Inr (path, slash_bits)"
  shows "paths' (state' (snd (ParseEdge X ps0))) path =
           Some ((case paths' (state' ps) path of
                    None \<Rightarrow> \<lparr>path' = path, slash_bits' = slash_bits, node_env' = env, in_edge' = None,
                              out_edges' = [], dyndep_pending' = False\<rparr>
                  | Some node \<Rightarrow> node)\<lparr>dyndep_pending' := True\<rparr>)
       \<and> dyndep' (edges' (state' (snd (ParseEdge X ps0))) ! eid) = Some path
       \<and> fst (ParseEdge X ps0) = (path \<in> set (inputs' (edges' (state' ps) ! eid)))
       \<and> (path \<notin> set (inputs' (edges' (state' ps) ! eid)) \<longrightarrow>
            err (snd (ParseEdge X ps0)) =
              ''dyndep '' @ [CHR 0x27] @ path @ [CHR 0x27] @ '' is not an input'')"
proof -
  have e: "ParseEdge X ps0 = ParseEdge_dyndep X env eid ps"
    using assms(1-5) by (simp add: ParseEdge_def)
  have l: "eid < length (edges' (state' ps))"
    using new_edge_index [OF assms(4)] link_length [OF assms(5)] by simp
  show ?thesis
    unfolding e by (rule ParseEdge_dyndep_result [OF assms(6-8) l])
qed

text \<open>
  Claim C6 as stated fails. Under the policy that warns of duplicate outputs, the
  second of the statements \<^verbatim>\<open>build a: cat x\<close> and \<^verbatim>\<open>build a: cat y\<close> with \<^verbatim>\<open>dyndep = dd\<close>
  loses its only output and is dropped at lines 343 to 349, before the dyndep
  binding is looked at: the parse returns true with no message, no node \<^verbatim>\<open>dd\<close> exists,
  and \<^verbatim>\<open>dd\<close> is no input of any edge.
\<close>

theorem ParseEdge_dyndep_counterexample:
  "map_option fst (Parse 3 example_externs dyndep_after_discard (example_parser [])) = Some (Return True)
   \<and> map_option (\<lambda>r. err (snd r)) (Parse 3 example_externs dyndep_after_discard (example_parser [])) = Some []
   \<and> map_option (\<lambda>r. Option.is_none (paths' (state' (snd r)) ''dd''))
        (Parse 3 example_externs dyndep_after_discard (example_parser [])) = Some True
   \<and> map_option (\<lambda>r. map inputs' (edges' (state' (snd r))))
        (Parse 3 example_externs dyndep_after_discard (example_parser [])) = Some [[''x'']]"
  by code_simp

lemma dyn_reach:
  "\<not> isl (ParseEdge_outs (example_sub_parser build_dyndep_declared))"
  "\<not> isl (ParseEdge_ins example_externs (snd (snd dyn_s1)))"
  "\<not> isl (ParseEdge_bindings example_externs (snd (snd (snd (snd dyn_s2)))))"
  "\<not> isl (ParseEdge_new_edge example_externs (fst dyn_s2) (fst dyn_s3) (snd dyn_s3))"
  "\<not> isl (ParseEdge_link example_externs (fst dyn_s1) (fst (snd dyn_s1)) (fst (snd dyn_s2))
                     (fst (snd (snd dyn_s2))) (fst (snd (snd (snd dyn_s2)))) (fst dyn_s3) (fst dyn_s4)
                     (snd dyn_s4))"
  by code_simp+

lemma dyn_values:
  "fst dyn_s3 = 2" "fst dyn_s4 = 0"
  "GetUnescapedDyndep example_externs (state' dyn_s5) 0 = ''dd''"
  "CanonicalizePath example_externs (AsString (envs' (state' dyn_s5)) 2 @ ''dd'') = Inr (''sub/dd'', 0)"
  "inputs' (edges' (state' dyn_s5) ! 0) = [''sub/in'', ''sub/dd'']"
  "outputs' (edges' (state' dyn_s5) ! 0) = [''sub/out'']"
  "Option.is_none (paths' (state' dyn_s5) ''dd'')"
  by code_simp+

lemma dyn_missing:
  "\<not> fst (ParseEdge example_externs (example_sub_parser build_dyndep_missing))"
  "err (snd (ParseEdge example_externs (example_sub_parser build_dyndep_missing))) = ''dyndep 'sub/dd' is not an input''"
  by code_simp+

theorem ParseEdge_dyndep_amended_witness:
  "\<not> isl (ParseEdge_outs (example_sub_parser build_dyndep_declared))
   \<and> \<not> isl (ParseEdge_ins example_externs (snd (snd dyn_s1)))
   \<and> \<not> isl (ParseEdge_bindings example_externs (snd (snd (snd (snd dyn_s2)))))
   \<and> \<not> isl (ParseEdge_new_edge example_externs (fst dyn_s2) (fst dyn_s3) (snd dyn_s3))
   \<and> \<not> isl (ParseEdge_link example_externs (fst dyn_s1) (fst (snd dyn_s1)) (fst (snd dyn_s2))
                     (fst (snd (snd dyn_s2))) (fst (snd (snd (snd dyn_s2)))) (fst dyn_s3) (fst dyn_s4)
                     (snd dyn_s4))
   \<and> GetUnescapedDyndep example_externs (state' dyn_s5) 0 = ''dd''
   \<and> AsString (envs' (state' dyn_s5)) 2 = ''sub/''
   \<and> CanonicalizePath example_externs (AsString (envs' (state' dyn_s5)) 2 @ ''dd'') = Inr (''sub/dd'', 0)
   \<and> inputs' (edges' (state' dyn_s5) ! 0) = [''sub/in'', ''sub/dd'']
   \<and> fst (ParseEdge example_externs (example_sub_parser build_dyndep_declared))
   \<and> map_option dyndep_pending'
        (paths' (state' (snd (ParseEdge example_externs (example_sub_parser build_dyndep_declared)))) ''sub/dd'')
       = Some True
   \<and> dyndep' (edges' (state' (snd (ParseEdge example_externs (example_sub_parser build_dyndep_declared)))) ! 0)
       = Some ''sub/dd''
   \<and> \<not> fst (ParseEdge example_externs (example_sub_parser build_dyndep_missing))
   \<and> err (snd (ParseEdge example_externs (example_sub_parser build_dyndep_missing))) =
       ''dyndep 'sub/dd' is not an input''"
proof -
  have h1: "ParseEdge_outs (example_sub_parser build_dyndep_declared) =
      Inr (fst dyn_s1, fst (snd dyn_s1), snd (snd dyn_s1))"
    using dyn_reach(1) by (simp add: dyn_s1_def)
  have h2: "ParseEdge_ins example_externs (snd (snd dyn_s1)) =
      Inr (fst dyn_s2, fst (snd dyn_s2), fst (snd (snd dyn_s2)), fst (snd (snd (snd dyn_s2))),
           snd (snd (snd (snd dyn_s2))))"
    using dyn_reach(2) by (simp add: dyn_s2_def)
  have h3: "ParseEdge_bindings example_externs (snd (snd (snd (snd dyn_s2)))) = Inr (fst dyn_s3, snd dyn_s3)"
    using dyn_reach(3) by (simp add: dyn_s3_def)
  have h4: "ParseEdge_new_edge example_externs (fst dyn_s2) (fst dyn_s3) (snd dyn_s3) =
      Inr (fst dyn_s4, snd dyn_s4)"
    using dyn_reach(4) by (simp add: dyn_s4_def)
  have h5: "ParseEdge_link example_externs (fst dyn_s1) (fst (snd dyn_s1)) (fst (snd dyn_s2))
      (fst (snd (snd dyn_s2))) (fst (snd (snd (snd dyn_s2)))) (fst dyn_s3) (fst dyn_s4) (snd dyn_s4) =
      Inr dyn_s5"
    using dyn_reach(5) by (simp add: dyn_s5_def)
  have h6: "GetUnescapedDyndep example_externs (state' dyn_s5) (fst dyn_s4) = ''dd''"
    by (simp add: dyn_values)
  have h7: "''dd'' \<noteq> []" by simp
  have h8: "CanonicalizePath example_externs (AsString (envs' (state' dyn_s5)) (fst dyn_s3) @ ''dd'') =
      Inr (''sub/dd'', 0)"
    by (simp add: dyn_values)
  note t = ParseEdge_dyndep_amended [OF h1 h2 h3 h4 h5 h6 h7 h8]
  have a: "AsString (envs' (state' dyn_s5)) 2 = ''sub/''"
    by code_simp
  have r1: "fst (ParseEdge example_externs (example_sub_parser build_dyndep_declared))"
    using t [THEN conjunct2, THEN conjunct2, THEN conjunct1] by (simp add: dyn_values)
  have r2: "map_option dyndep_pending'
        (paths' (state' (snd (ParseEdge example_externs (example_sub_parser build_dyndep_declared)))) ''sub/dd'')
       = Some True"
    unfolding t [THEN conjunct1] by simp
  have r3: "dyndep' (edges' (state' (snd (ParseEdge example_externs (example_sub_parser build_dyndep_declared)))) ! 0)
       = Some ''sub/dd''"
    using t [THEN conjunct2, THEN conjunct1] by (simp add: dyn_values)
  show ?thesis
    by (intro conjI) (rule dyn_reach dyn_values a r1 r2 r3 dyn_missing)+
qed

subsection \<open>Inclusions that change the working directory\<close>

lemma ExpectToken_file_reader:
  "ExpectToken X t ps = (b, ps1) \<Longrightarrow> file_reader' ps1 = file_reader' ps"
  by (auto simp: ExpectToken_def LexerError_def split: prod.splits if_splits)

lemma ParseLet_file_reader:
  "ParseLet X ps = (r, ps1) \<Longrightarrow> file_reader' ps1 = file_reader' ps"
  unfolding ParseLet_def
  by (auto simp: LexerError_def split: prod.splits option.splits bool.splits sum.splits
      dest!: ExpectToken_file_reader)

lemma ParseFileInclude_loop_cases:
  assumes "ParseFileInclude_loop X new_scope has_chdir prev_cwd rel_path ps = Inr (ok, hc, pc, rp, ps')"
  obtains (finished) "hc = has_chdir" "pc = prev_cwd" "rp = rel_path" "file_reader' ps' = file_reader' ps"
  | (step) lx let_value ps1 prev_cwd1 fr where "\<not> has_chdir"
      "PeekToken INDENT (lexer' ps) = (True, lx)"
      "ParseLet X (ps\<lparr>lexer' := lx\<rparr>) = (Some (''chdir'', let_value), ps1)"
      "Getcwd (file_reader' ps1) = Inr prev_cwd1"
      "Chdir (Evaluate (envs' (state' ps1)) (env' ps1) let_value) (file_reader' ps1) = (None, fr)"
      "ParseFileInclude_loop X new_scope True prev_cwd1
         (Evaluate (envs' (state' ps1)) (env' ps1) let_value @ ''/'') (ps1\<lparr>file_reader' := fr\<rparr>) =
       Inr (ok, hc, pc, rp, ps')"
proof -
  note eq = assms [unfolded ParseFileInclude_loop.simps [of X new_scope has_chdir prev_cwd rel_path ps]]
  obtain b lx where pk: "PeekToken INDENT (lexer' ps) = (b, lx)" by force
  show thesis
  proof (cases b)
    case False
    with eq pk that(1) show thesis by auto
  next
    case True
    obtain r ps1 where pl: "ParseLet X (ps\<lparr>lexer' := lx\<rparr>) = (r, ps1)" by force
    from ParseLet_file_reader [OF pl] have fr1: "file_reader' ps1 = file_reader' ps" by simp
    show thesis
    proof (cases r)
      case None
      with eq pk True pl fr1 that(1) show thesis by auto
    next
      case (Some kv)
      obtain key let_value where kv: "kv = (key, let_value)" by force
      show thesis
      proof (cases "key = ''chdir'' \<and> new_scope \<and> \<not> has_chdir")
        case False
        with eq pk True pl Some kv fr1 that(1) show thesis
          by (auto simp: LexerError_def split: if_splits)
      next
        case ok: True
        obtain g where g: "Getcwd (file_reader' ps1) = g" by simp
        obtain e fr where c: "Chdir (Evaluate (envs' (state' ps1)) (env' ps1) let_value) (file_reader' ps1) = (e, fr)"
          by force
        from eq pk True pl Some kv ok g c obtain prev_cwd1 where "g = Inr prev_cwd1" "e = None"
          by (cases g; cases e) (auto simp: Let_def)
        with eq pk True pl Some kv ok g c that(2) [of lx let_value ps1 prev_cwd1 fr] show thesis
          by (simp add: Let_def)
      qed
    qed
  qed
qed

lemma ParseFileInclude_loop_after_chdir:
  "ParseFileInclude_loop X new_scope True prev_cwd rel_path ps = Inr (ok, hc, pc, rp, ps') \<Longrightarrow>
     hc \<and> pc = prev_cwd \<and> file_reader' ps' = file_reader' ps"
  by (erule ParseFileInclude_loop_cases) simp_all

lemma ParseFileInclude_loop_chdir:
  assumes "ParseFileInclude_loop X new_scope False prev_cwd rel_path ps = Inr (ok, True, pc, rp, ps')"
  shows "Getcwd (file_reader' ps) = Inr pc \<and> (\<exists>d. Chdir d (file_reader' ps) = (None, file_reader' ps'))"
  using assms
proof (cases rule: ParseFileInclude_loop_cases)
  case finished
  then show ?thesis by simp
next
  case (step lx let_value ps1 prev_cwd1 fr)
  from ParseFileInclude_loop_after_chdir [OF step(6)] have "pc = prev_cwd1" "file_reader' ps' = fr"
    by simp_all
  moreover from ParseLet_file_reader [OF step(3)] have "file_reader' ps1 = file_reader' ps" by simp
  ultimately show ?thesis using step(4,5) by auto
qed

text \<open>
  Claim C7. When the \<^verbatim>\<open>chdir\<close> binding of an inclusion has switched the working
  directory (the loop ends with \<^verbatim>\<open>has_chdir\<close> true), \<^verbatim>\<open>prev_cwd\<close> is the directory the
  file reader reported before the switch, and whatever the nested parse returns
  (\<open>ok1\<close>; false also when an error after the switch kept it from running),
  \<open>Chdir prev_cwd\<close> is run on the file reader it leaves. When that succeeds the
  result is \<open>ok1\<close>, \<open>err\<close> is untouched and the working directory is the one before
  the inclusion; when it fails the result is false, and its message is stored only
  if \<open>ok1\<close> was true.
\<close>

theorem ParseFileInclude_restores_cwd:
  assumes "ReadPath (lexer' ps) = (Inr eval, lx)"
    and "ExpectToken X NEWLINE (ps\<lparr>lexer' := lx\<rparr>) = (True, ps1)"
    and "ParseFileInclude_loop X new_scope False [] [] ps1 = Inr (ok, True, prev_cwd, rel_path, ps2)"
    and "ParseFileInclude_nested parse new_scope (Evaluate (envs' (state' ps)) (env' ps) eval)
           (AsString (envs' (state' ps1)) (env' ps1)) rel_path ok ps2 = Some (Return ok1, ps3)"
  shows "Getcwd (file_reader' ps) = Inr prev_cwd
       \<and> ParseFileInclude X parse new_scope ps =
           Some (case Chdir prev_cwd (file_reader' ps3) of
                   (None, fr) \<Rightarrow> (Return ok1, ps3\<lparr>file_reader' := fr\<rparr>)
                 | (Some dir_err, fr) \<Rightarrow>
                     (Return False,
                      ps3\<lparr>file_reader' := fr,
                          err := (if ok1 then restore_message prev_cwd dir_err else err ps3)\<rparr>))
       \<and> (\<forall>fr. Chdir prev_cwd (file_reader' ps3) = (None, fr) \<longrightarrow> cwd' fr = cwd' (file_reader' ps))"
proof -
  from ExpectToken_file_reader [OF assms(2)] have f1: "file_reader' ps1 = file_reader' ps" by simp
  from ParseFileInclude_loop_chdir [OF assms(3)] f1
  have g: "Getcwd (file_reader' ps) = Inr prev_cwd" by simp
  have r: "ParseFileInclude X parse new_scope ps =
      (case ParseFileInclude_restore True prev_cwd ok1 ps3 of (b, ps4) \<Rightarrow> Some (Return b, ps4))"
    using assms by (simp add: ParseFileInclude_def Let_def)
  have e: "ParseFileInclude X parse new_scope ps =
           Some (case Chdir prev_cwd (file_reader' ps3) of
                   (None, fr) \<Rightarrow> (Return ok1, ps3\<lparr>file_reader' := fr\<rparr>)
                 | (Some dir_err, fr) \<Rightarrow>
                     (Return False,
                      ps3\<lparr>file_reader' := fr,
                          err := (if ok1 then restore_message prev_cwd dir_err else err ps3)\<rparr>))"
    unfolding r
    by (auto simp: ParseFileInclude_restore_def restore_message_def split: prod.splits option.splits)
  have c: "\<forall>fr. Chdir prev_cwd (file_reader' ps3) = (None, fr) \<longrightarrow> cwd' fr = cwd' (file_reader' ps)"
    using g by (auto simp: Chdir_def Getcwd_def split: if_splits option.splits)
  show ?thesis
    by (intro conjI) (rule g, rule e, rule c)
qed

lemma example_include_header:
  "ReadPath (lexer' (example_parser (subninja_chdir ''build.ninja''))) =
     (Inr [RAW ''build.ninja''],
      \<lparr>ofs' = [Kw NEWLINE, Kw INDENT, Word ''chdir'', Kw EQUALS, ValueText [RAW ''sub'']], last_token' = []\<rparr>)"
  by code_simp

lemma example_include_newline:
  "ExpectToken example_externs NEWLINE
     ((example_parser (subninja_chdir ''build.ninja''))\<lparr>lexer' :=
        \<lparr>ofs' = [Kw NEWLINE, Kw INDENT, Word ''chdir'', Kw EQUALS, ValueText [RAW ''sub'']], last_token' = []\<rparr>\<rparr>) =
     (True, (example_parser [])\<lparr>lexer' :=
        \<lparr>ofs' = [Kw INDENT, Word ''chdir'', Kw EQUALS, ValueText [RAW ''sub'']],
         last_token' = [Kw NEWLINE, Kw INDENT, Word ''chdir'', Kw EQUALS, ValueText [RAW ''sub'']]\<rparr>\<rparr>)"
  by (simp add: ExpectToken_def ReadToken_def example_parser_def)

lemma example_include_loop:
  "ParseFileInclude_loop example_externs True False [] []
     ((example_parser [])\<lparr>lexer' :=
        \<lparr>ofs' = [Kw INDENT, Word ''chdir'', Kw EQUALS, ValueText [RAW ''sub'']],
         last_token' = [Kw NEWLINE, Kw INDENT, Word ''chdir'', Kw EQUALS, ValueText [RAW ''sub'']]\<rparr>\<rparr>) =
   Inr (True, True, ''/top'', ''sub/'',
        (example_parser [])\<lparr>lexer' := \<lparr>ofs' = [], last_token' = []\<rparr>,
          file_reader' := (file_reader' (example_parser []))\<lparr>cwd' := Some ''sub''\<rparr>\<rparr>)"
  apply (subst ParseFileInclude_loop.simps)
  apply (simp add: PeekToken_def ReadToken_def ParseLet_def ReadIdent_def ExpectToken_def ReadVarValue_def
      Evaluate_def Getcwd_def Chdir_def example_parser_def Let_def)
  apply (subst ParseFileInclude_loop.simps)
  apply (simp add: PeekToken_def ReadToken_def UnreadToken_def)
  done

lemma example_nested_returns: "map_option fst example_nested = Some (Return True)"
  by code_simp

lemma example_nested_dirs: "fst (Chdir ''/top'' (file_reader' (snd (the example_nested)))) = None"
  by code_simp

lemma example_include_bad_file:
  "map_option fst (ParseFileInclude example_externs (Parse_loop 3 example_externs) True
      (example_parser (subninja_chdir ''bad.ninja''))) = Some (Return False)
   \<and> map_option (\<lambda>r. cwd' (file_reader' (snd r)))
       (ParseFileInclude example_externs (Parse_loop 3 example_externs) True
         (example_parser (subninja_chdir ''bad.ninja''))) = Some (Some ''/top'')
   \<and> map_option (\<lambda>r. err (snd r))
       (ParseFileInclude example_externs (Parse_loop 3 example_externs) True
         (example_parser (subninja_chdir ''bad.ninja''))) = Some ''unexpected :''"
  by code_simp

theorem ParseFileInclude_restores_cwd_witness:
  "ReadPath (lexer' (example_parser (subninja_chdir ''build.ninja''))) =
     (Inr [RAW ''build.ninja''],
      \<lparr>ofs' = [Kw NEWLINE, Kw INDENT, Word ''chdir'', Kw EQUALS, ValueText [RAW ''sub'']], last_token' = []\<rparr>)
   \<and> map_option fst example_nested = Some (Return True)
   \<and> Getcwd (file_reader' (example_parser (subninja_chdir ''build.ninja''))) = Inr ''/top''
   \<and> map_option fst (ParseFileInclude example_externs (Parse_loop 3 example_externs) True
        (example_parser (subninja_chdir ''build.ninja''))) = Some (Return True)
   \<and> map_option (\<lambda>r. cwd' (file_reader' (snd r)))
        (ParseFileInclude example_externs (Parse_loop 3 example_externs) True
          (example_parser (subninja_chdir ''build.ninja''))) = Some (Some ''/top'')
   \<and> map_option fst (ParseFileInclude example_externs (Parse_loop 3 example_externs) True
        (example_parser (subninja_chdir ''bad.ninja''))) = Some (Return False)
   \<and> map_option (\<lambda>r. cwd' (file_reader' (snd r)))
        (ParseFileInclude example_externs (Parse_loop 3 example_externs) True
          (example_parser (subninja_chdir ''bad.ninja''))) = Some (Some ''/top'')"
proof -
  have h4: "ParseFileInclude_nested (Parse_loop 3 example_externs) True
      (Evaluate (envs' (state' (example_parser (subninja_chdir ''build.ninja''))))
         (env' (example_parser (subninja_chdir ''build.ninja''))) [RAW ''build.ninja''])
      (AsString (envs' (state' ((example_parser [])\<lparr>lexer' :=
        \<lparr>ofs' = [Kw INDENT, Word ''chdir'', Kw EQUALS, ValueText [RAW ''sub'']],
         last_token' = [Kw NEWLINE, Kw INDENT, Word ''chdir'', Kw EQUALS, ValueText [RAW ''sub'']]\<rparr>\<rparr>)))
        (env' ((example_parser [])\<lparr>lexer' :=
        \<lparr>ofs' = [Kw INDENT, Word ''chdir'', Kw EQUALS, ValueText [RAW ''sub'']],
         last_token' = [Kw NEWLINE, Kw INDENT, Word ''chdir'', Kw EQUALS, ValueText [RAW ''sub'']]\<rparr>\<rparr>)))
      ''sub/'' True
      ((example_parser [])\<lparr>lexer' := \<lparr>ofs' = [], last_token' = []\<rparr>,
          file_reader' := (file_reader' (example_parser []))\<lparr>cwd' := Some ''sub''\<rparr>\<rparr>) =
      Some (Return True, snd (the example_nested))"
  proof -
    have "example_nested = Some (Return True, snd (the example_nested))"
    proof (cases example_nested)
      case None
      with example_nested_returns show ?thesis by simp
    next
      case (Some r)
      have "fst r = Return True"
        using example_nested_returns unfolding Some by simp
      then show ?thesis
        unfolding Some by (cases r) simp
    qed
    then show ?thesis
      by (simp add: example_nested_def Evaluate_def AsString_def example_parser_def example_state_def)
  qed
  note t = ParseFileInclude_restores_cwd [OF example_include_header example_include_newline
      example_include_loop h4]
  obtain fr where c: "Chdir ''/top'' (file_reader' (snd (the example_nested))) = (None, fr)"
    using example_nested_dirs by (cases "Chdir ''/top'' (file_reader' (snd (the example_nested)))") auto
  from t [THEN conjunct2, THEN conjunct2] c
  have "cwd' fr = cwd' (file_reader' (example_parser (subninja_chdir ''build.ninja'')))" by blast
  then have w: "cwd' fr = Some ''/top''" by (simp add: example_parser_def)
  from t [THEN conjunct2, THEN conjunct1] c w
  have r: "map_option fst (ParseFileInclude example_externs (Parse_loop 3 example_externs) True
        (example_parser (subninja_chdir ''build.ninja''))) = Some (Return True)"
    "map_option (\<lambda>r. cwd' (file_reader' (snd r)))
        (ParseFileInclude example_externs (Parse_loop 3 example_externs) True
          (example_parser (subninja_chdir ''build.ninja''))) = Some (Some ''/top'')"
    by simp_all
  show ?thesis
    by (intro conjI) (rule example_include_header, rule example_nested_returns,
        rule t [THEN conjunct1], rule r(1), rule r(2),
        rule example_include_bad_file [THEN conjunct1],
        rule example_include_bad_file [THEN conjunct2, THEN conjunct1])
qed

subsection \<open>Duplicate outputs\<close>




lemma dupe_warned_frame [simp]:
  "state' (dupe_warned path ps) = state' ps" "options' (dupe_warned path ps) = options' ps"
  "quiet' (dupe_warned path ps) = quiet' ps" "err (dupe_warned path ps) = err ps"
  "lexer' (dupe_warned path ps) = lexer' ps"
  by (simp_all add: dupe_warned_def)



























end
